theory Spec2Isabelle
  imports Main
begin

section \<open>hashR: the repository cache and the processing engine\<close>

text \<open>
  A model of the packages \<^verbatim>\<open>cache\<close> (\<^verbatim>\<open>readJSON\<close>, \<^verbatim>\<open>Save\<close>, \<^verbatim>\<open>Load\<close>,
  \<^verbatim>\<open>Check\<close>) and \<^verbatim>\<open>hashr\<close> (\<^verbatim>\<open>newSources\<close>, \<^verbatim>\<open>contains\<close>, \<^verbatim>\<open>process\<close>,
  \<^verbatim>\<open>cleanupLocalStorage\<close>, \<^verbatim>\<open>handleError\<close>, \<^verbatim>\<open>processingWorker\<close>,
  \<^verbatim>\<open>saveSamples\<close>). Go structs are records, the \<^verbatim>\<open>sync.Map\<close> of the cache is a map
  from digests to entries, a returned \<^verbatim>\<open>error\<close> is the left summand of a sum type, and
  the file system the code reads and writes is an explicit state.
\<close>

subsection \<open>Data\<close>

text \<open>
  \<^verbatim>\<open>common.Sample\<close> and \<^verbatim>\<open>common.Extraction\<close>. Their declarations and those of the
  cache messages are not among the sources; the fields are the ones the code and its
  tests read and write.
\<close>

record Sample =
  Sha256 :: string
  Paths :: "string list"
  Upload :: bool

record Extraction =
  SourceID :: string
  RepoName :: string
  BaseDir :: string
  SourceSHA256 :: string
  Path :: string

text \<open>
  The messages of the cache file: \<^verbatim>\<open>cpb.CacheEntry\<close> (one occurrence of a file in a
  source; its repeated string field \<^verbatim>\<open>Path\<close> is \<open>EntryPath\<close> here) and
  \<^verbatim>\<open>cpb.Entries\<close> (its field \<^verbatim>\<open>Entries\<close> is \<open>entries\<close> here). A timestamp is a number.
\<close>

record CacheEntry =
  SourceId :: string
  SourceHash :: string
  EntryPath :: "string list"

record Entries =
  LastUpdated :: nat
  entries :: "CacheEntry list"

type_synonym cache = "string \<rightharpoonup> Entries"

text \<open>
  Errors. \<open>Wrap msg e\<close> is \<^verbatim>\<open>fmt.Errorf("msg: %v", e)\<close>.
\<close>

datatype error = ErrNotExist | ErrExist | ErrIO | ErrCodec | ErrExec | Wrap string error

subsection \<open>Library functions the code calls\<close>

text \<open>
  The functions of the Go library and of the protobuf and JSON codecs are parameters of
  the model, collected in one record: \<^verbatim>\<open>filepath.Join\<close>, \<^verbatim>\<open>filepath.Base\<close>,
  \<^verbatim>\<open>json.Unmarshal\<close> into a slice of samples and \<^verbatim>\<open>json.Marshal\<close> of one,
  \<^verbatim>\<open>proto.Marshal\<close> and \<^verbatim>\<open>proto.Unmarshal\<close> of a \<^verbatim>\<open>cpb.Cache\<close>,
  \<^verbatim>\<open>strings.EqualFold\<close>, and the hexadecimal SHA-256 digest of a byte string.
  A codec that fails returns \<open>None\<close>.
\<close>

record golib =
  Join :: "string list \<Rightarrow> string"
  Base :: "string \<Rightarrow> string"
  json_Unmarshal :: "string \<Rightarrow> Sample list option"
  json_Marshal :: "Sample list \<Rightarrow> string option"
  proto_Marshal :: "cache \<Rightarrow> string option"
  proto_Unmarshal :: "string \<Rightarrow> cache option"
  EqualFold :: "string \<Rightarrow> string \<Rightarrow> bool"
  sha256_hex :: "string \<Rightarrow> string"

subsection \<open>The file system\<close>

text \<open>
  Regular files with their bytes, directories, and the faults the operating system can
  answer a call with. The empty path names nothing, and no call on it succeeds.
  \<open>read_fails\<close>, \<open>remove_fails\<close>, \<open>create_fails\<close> and \<open>mkdir_fails\<close> are the paths on
  which the call is refused (permissions, an I/O error, a directory that is not empty),
  and \<open>write_limit p = Some n\<close> says that a write to \<open>p\<close> stops with an error once \<open>n\<close>
  bytes have reached the file (a full disk, a quota).
\<close>

record fs =
  files :: "string \<rightharpoonup> string"
  dirs :: "string set"
  read_fails :: "string set"
  remove_fails :: "string set"
  create_fails :: "string set"
  mkdir_fails :: "string set"
  write_limit :: "string \<rightharpoonup> nat"

definition exists_path :: "fs \<Rightarrow> string \<Rightarrow> bool" where
  "exists_path f p = (p \<noteq> [] \<and> (files f p \<noteq> None \<or> p \<in> dirs f))"

text \<open>\<^verbatim>\<open>os.Stat\<close>: it reports whether the path exists.\<close>

definition os_Stat :: "fs \<Rightarrow> string \<Rightarrow> error + unit" where
  "os_Stat f p = (if exists_path f p then Inr () else Inl ErrNotExist)"

definition os_IsNotExist :: "error + unit \<Rightarrow> bool" where
  "os_IsNotExist r = (r = Inl ErrNotExist)"

definition ioutil_ReadFile :: "fs \<Rightarrow> string \<Rightarrow> error + string" where
  "ioutil_ReadFile f p =
     (if p = [] then Inl ErrNotExist
      else if p \<in> read_fails f then Inl ErrIO
      else case files f p of
             Some data \<Rightarrow> Inr data
           | None \<Rightarrow> if p \<in> dirs f then Inl ErrIO else Inl ErrNotExist)"

text \<open>\<^verbatim>\<open>os.Remove\<close> deletes a file or a directory.\<close>

definition os_Remove :: "fs \<Rightarrow> string \<Rightarrow> (error + unit) \<times> fs" where
  "os_Remove f p =
     (if \<not> exists_path f p then (Inl ErrNotExist, f)
      else if p \<in> remove_fails f then (Inl ErrIO, f)
      else (Inr (), f\<lparr>files := (files f)(p := None), dirs := dirs f - {p}\<rparr>))"

text \<open>
  \<^verbatim>\<open>os.Create\<close> creates the file or truncates the one that is there. The file it
  returns is the path; \<^verbatim>\<open>File.Write\<close> then appends the bytes to it, as many as the
  system accepts.
\<close>

definition os_Create :: "fs \<Rightarrow> string \<Rightarrow> (error + unit) \<times> fs" where
  "os_Create f p =
     (if p = [] then (Inl ErrNotExist, f)
      else if p \<in> create_fails f \<or> p \<in> dirs f then (Inl ErrIO, f)
      else (Inr (), f\<lparr>files := (files f)(p \<mapsto> [])\<rparr>))"

definition file_Write :: "fs \<Rightarrow> string \<Rightarrow> string \<Rightarrow> (error + unit) \<times> fs" where
  "file_Write f p data =
     (case files f p of
        None \<Rightarrow> (Inl ErrNotExist, f)
      | Some old \<Rightarrow>
          (case write_limit f p of
             None \<Rightarrow> (Inr (), f\<lparr>files := (files f)(p \<mapsto> old @ data)\<rparr>)
           | Some n \<Rightarrow>
               if n < length data
               then (Inl ErrIO, f\<lparr>files := (files f)(p \<mapsto> old @ take n data)\<rparr>)
               else (Inr (), f\<lparr>files := (files f)(p \<mapsto> old @ data)\<rparr>)))"

text \<open>\<^verbatim>\<open>ioutil.WriteFile\<close>: create or truncate, then write.\<close>

definition ioutil_WriteFile :: "fs \<Rightarrow> string \<Rightarrow> string \<Rightarrow> (error + unit) \<times> fs" where
  "ioutil_WriteFile f p data =
     (case os_Create f p of
        (Inl err, f') \<Rightarrow> (Inl err, f')
      | (Inr _, f') \<Rightarrow> file_Write f' p data)"

text \<open>
  \<^verbatim>\<open>os.Mkdir\<close> fails on a path that exists; \<^verbatim>\<open>os.MkdirAll\<close> accepts a directory
  that is already there.
\<close>

definition os_Mkdir :: "fs \<Rightarrow> string \<Rightarrow> (error + unit) \<times> fs" where
  "os_Mkdir f p =
     (if p = [] then (Inl ErrNotExist, f)
      else if exists_path f p then (Inl ErrExist, f)
      else if p \<in> mkdir_fails f then (Inl ErrIO, f)
      else (Inr (), f\<lparr>dirs := insert p (dirs f)\<rparr>))"

definition os_MkdirAll :: "fs \<Rightarrow> string \<Rightarrow> (error + unit) \<times> fs" where
  "os_MkdirAll f p =
     (if p = [] then (Inl ErrNotExist, f)
      else if p \<in> dirs f then (Inr (), f)
      else if files f p \<noteq> None \<or> p \<in> mkdir_fails f then (Inl ErrIO, f)
      else (Inr (), f\<lparr>dirs := insert p (dirs f)\<rparr>))"

subsection \<open>Package cache: readJSON and Check\<close>

text \<open>
  \<^verbatim>\<open>readJSON\<close> reads \<^verbatim>\<open>hashes.json\<close> in the extraction's directory, decodes it and
  joins every path of every sample with that directory (the inner loop assigns through
  the slice, so the samples returned hold the joined paths).
\<close>

definition readJSON :: "golib \<Rightarrow> fs \<Rightarrow> Extraction \<Rightarrow> error + Sample list" where
  "readJSON L f extraction =
     (let pathJSON = Join L [Path extraction, ''hashes.json''] in
      case ioutil_ReadFile f pathJSON of
        Inl err \<Rightarrow> Inl (Wrap ''error while reading hashes.json file'' err)
      | Inr data \<Rightarrow>
          (case json_Unmarshal L data of
             None \<Rightarrow> Inl (Wrap ''error unmarshalling hashes.json file'' ErrCodec)
           | Some samples \<Rightarrow>
               Inr (map (\<lambda>sample. sample\<lparr>Paths := map (\<lambda>p. Join L [Path extraction, p]) (Paths sample)\<rparr>)
                      samples)))"

text \<open>
  The body of the loop of \<^verbatim>\<open>Check\<close> for one sample, at time \<open>t\<close>
  (\<^verbatim>\<open>timestamppb.Now()\<close>): the new occurrence holds the source's id and digest, its
  \<^verbatim>\<open>Path\<close> field is not set; a digest the cache holds gets the occurrence appended, a
  digest it does not hold gets a new entry and the sample is marked for upload.
\<close>

definition newCacheEntry :: "Extraction \<Rightarrow> CacheEntry" where
  "newCacheEntry extraction =
     \<lparr>SourceId = SourceID extraction, SourceHash = SourceSHA256 extraction, EntryPath = []\<rparr>"

definition newExport :: "Sample \<Rightarrow> Sample" where
  "newExport sample = \<lparr>Sha256 = Sha256 sample, Paths = Paths sample, Upload = False\<rparr>"

definition Check_entry :: "Extraction \<Rightarrow> nat \<Rightarrow> Sample \<Rightarrow> cache \<Rightarrow> cache \<times> Sample" where
  "Check_entry extraction t sample c =
     (case c (Sha256 sample) of
        Some sampleCache \<Rightarrow>
          (c(Sha256 sample \<mapsto>
               sampleCache\<lparr>entries := entries sampleCache @ [newCacheEntry extraction],
                           LastUpdated := t\<rparr>),
           newExport sample)
      | None \<Rightarrow>
          (c(Sha256 sample \<mapsto> \<lparr>LastUpdated = t, entries = [newCacheEntry extraction]\<rparr>),
           (newExport sample)\<lparr>Upload := True\<rparr>))"

text \<open>
  The loop over the samples: \<open>i\<close> counts the samples done, \<open>now i\<close> is the clock read
  for sample \<open>i\<close>, \<open>exports\<close> is the slice built so far.
\<close>

fun Check_loop ::
  "Extraction \<Rightarrow> (nat \<Rightarrow> nat) \<Rightarrow> nat \<Rightarrow> Sample list \<Rightarrow> cache \<Rightarrow> Sample list \<Rightarrow> cache \<times> Sample list"
where
  "Check_loop extraction now i [] c exports = (c, exports)"
| "Check_loop extraction now i (sample # samples) c exports =
     (case Check_entry extraction (now i) sample c of
        (c', x) \<Rightarrow> Check_loop extraction now (Suc i) samples c' (exports @ [x]))"

text \<open>
  \<^verbatim>\<open>Check\<close> returns the cache as it has left it and the samples or the error.
\<close>

definition Check ::
  "golib \<Rightarrow> (nat \<Rightarrow> nat) \<Rightarrow> fs \<Rightarrow> Extraction \<Rightarrow> cache \<Rightarrow> cache \<times> (error + Sample list)"
where
  "Check L now f extraction c =
     (case readJSON L f extraction of
        Inl err \<Rightarrow> (c, Inl (Wrap ''error while reading hashes.json file'' err))
      | Inr samples \<Rightarrow>
          (case Check_loop extraction now 0 samples c [] of
             (c', exports) \<Rightarrow> (c', Inr exports)))"

subsection \<open>Check: the samples returned and the occurrences recorded\<close>

text \<open>The occurrences the cache holds for a digest, none for a digest it does not hold.\<close>

definition entries_of :: "cache \<Rightarrow> string \<Rightarrow> CacheEntry list" where
  "entries_of c d = (case c d of None \<Rightarrow> [] | Some e \<Rightarrow> entries e)"

text \<open>
  The cache when sample \<open>i\<close> of the manifest is processed: the cache after the loop has
  run over the first \<open>i\<close> samples.
\<close>

definition cache_at :: "Extraction \<Rightarrow> (nat \<Rightarrow> nat) \<Rightarrow> Sample list \<Rightarrow> cache \<Rightarrow> nat \<Rightarrow> cache" where
  "cache_at extraction now samples c i = fst (Check_loop extraction now 0 (take i samples) c [])"

lemma Check_loop_append:
  "Check_loop e now i (xs @ ys) c ex =
     (case Check_loop e now i xs c ex of (c', ex') \<Rightarrow> Check_loop e now (i + length xs) ys c' ex')"
  by (induction xs arbitrary: i c ex) (auto split: prod.splits)

lemma Check_loop_fst_any:
  "fst (Check_loop e now i xs c ex) = fst (Check_loop e now i xs c ex')"
proof (induction xs arbitrary: i c ex ex')
  case Nil
  then show ?case by simp
next
  case (Cons x xs)
  obtain c' y where s: "Check_entry e (now i) x c = (c', y)" by (cases "Check_entry e (now i) x c")
  have "fst (Check_loop e now (Suc i) xs c' (ex @ [y])) = fst (Check_loop e now (Suc i) xs c' (ex' @ [y]))"
    by (rule Cons.IH)
  then show ?case using s by simp
qed

lemma Check_loop_fst_acc:
  "fst (Check_loop e now i xs c ex) = fst (Check_loop e now i xs c [])"
  by (rule Check_loop_fst_any)

lemma Check_loop_snd_acc:
  "snd (Check_loop e now i xs c ex) = ex @ snd (Check_loop e now i xs c [])"
proof (induction xs arbitrary: i c ex)
  case Nil
  then show ?case by simp
next
  case (Cons x xs)
  obtain c' y where s: "Check_entry e (now i) x c = (c', y)" by (cases "Check_entry e (now i) x c")
  have "snd (Check_loop e now (Suc i) xs c' (ex @ [y])) = (ex @ [y]) @ snd (Check_loop e now (Suc i) xs c' [])"
    by (rule Cons.IH)
  moreover have "snd (Check_loop e now (Suc i) xs c' ([] @ [y])) = ([] @ [y]) @ snd (Check_loop e now (Suc i) xs c' [])"
    by (rule Cons.IH)
  ultimately show ?case using s by simp
qed

lemma Check_loop_length:
  "length (snd (Check_loop e now i xs c ex)) = length ex + length xs"
  by (induction xs arbitrary: i c ex) (auto split: prod.splits)

lemma Check_entry_None_iff:
  "fst (Check_entry e t s c) d = None \<longleftrightarrow> c d = None \<and> d \<noteq> Sha256 s"
  by (auto simp: Check_entry_def split: option.splits)

lemma Check_loop_None_iff:
  "fst (Check_loop e now i xs c ex) d = None \<longleftrightarrow> c d = None \<and> d \<notin> Sha256 ` set xs"
proof (induction xs arbitrary: i c ex)
  case Nil
  then show ?case by simp
next
  case (Cons x xs)
  obtain c' y where s: "Check_entry e (now i) x c = (c', y)" by (cases "Check_entry e (now i) x c")
  have "c' d = None \<longleftrightarrow> c d = None \<and> d \<noteq> Sha256 x"
    using Check_entry_None_iff[of e "now i" x c d] s by simp
  then show ?case using Cons.IH[of "Suc i" c' "ex @ [y]"] s by auto
qed

lemma Check_loop_nth:
  assumes "i < length xs"
  shows "snd (Check_loop e now k xs c []) ! i =
           snd (Check_entry e (now (k + i)) (xs ! i) (fst (Check_loop e now k (take i xs) c [])))"
  using assms
proof (induction xs arbitrary: i k c)
  case Nil
  then show ?case by simp
next
  case (Cons x xs)
  obtain c' y where s: "Check_entry e (now k) x c = (c', y)" by (cases "Check_entry e (now k) x c")
  have snd_eq: "snd (Check_loop e now k (x # xs) c []) = y # snd (Check_loop e now (Suc k) xs c' [])"
    using s Check_loop_snd_acc[of e now "Suc k" xs c' "[y]"] by simp
  show ?case
  proof (cases i)
    case 0
    then show ?thesis using s snd_eq by simp
  next
    case (Suc j)
    then have "j < length xs" using Cons.prems by simp
    then have "snd (Check_loop e now (Suc k) xs c' []) ! j =
           snd (Check_entry e (now (Suc k + j)) (xs ! j) (fst (Check_loop e now (Suc k) (take j xs) c' [])))"
      by (rule Cons.IH)
    moreover have "fst (Check_loop e now k (take i (x # xs)) c []) = fst (Check_loop e now (Suc k) (take j xs) c' [])"
      using Suc s Check_loop_fst_acc[of e now "Suc k" "take j xs" c' "[y]"] by simp
    ultimately show ?thesis using Suc snd_eq by simp
  qed
qed

lemma Check_entry_entries:
  "entries_of (fst (Check_entry e t s c)) d =
     entries_of c d @ (if d = Sha256 s then [newCacheEntry e] else [])"
  by (auto simp: Check_entry_def entries_of_def split: option.splits)

lemma Check_loop_entries:
  "entries_of (fst (Check_loop e now i xs c ex)) d =
     entries_of c d @ replicate (count_list (map Sha256 xs) d) (newCacheEntry e)"
proof (induction xs arbitrary: i c ex)
  case Nil
  then show ?case by simp
next
  case (Cons x xs)
  obtain c' y where s: "Check_entry e (now i) x c = (c', y)" by (cases "Check_entry e (now i) x c")
  have "entries_of c' d = entries_of c d @ (if d = Sha256 x then [newCacheEntry e] else [])"
    using Check_entry_entries[of e "now i" x c d] s by simp
  then show ?case using Cons.IH[of "Suc i" c' "ex @ [y]"] s by (auto simp: replicate_append_same)
qed

subsection \<open>A concrete library, extraction, file system and cache\<close>

text \<open>
  The instances the examples below are evaluated at. \<open>join_slash\<close> is \<^verbatim>\<open>filepath.Join\<close>
  and \<open>base_slash\<close> is \<^verbatim>\<open>filepath.Base\<close> on clean, non-empty path elements; the
  decoder knows one manifest.
\<close>

fun join_slash :: "string list \<Rightarrow> string" where
  "join_slash [] = []"
| "join_slash [x] = x"
| "join_slash (x # y # ys) = x @ ''/'' @ join_slash (y # ys)"

definition base_slash :: "string \<Rightarrow> string" where
  "base_slash p = rev (takeWhile (\<lambda>ch. ch \<noteq> CHR ''/'') (rev p))"

definition manifest0 :: "Sample list" where
  "manifest0 = [\<lparr>Sha256 = ''aa'', Paths = [''a.txt''], Upload = False\<rparr>,
                \<lparr>Sha256 = ''bb'', Paths = [''b.txt'', ''lib/b.txt''], Upload = False\<rparr>]"

definition manifest0_json :: string where
  \<open>manifest0_json = ''[{"sha256":"aa","paths":["a.txt"]},{"sha256":"bb","paths":["b.txt","lib/b.txt"]}]''\<close>

definition lib0 :: golib where
  "lib0 = \<lparr>Join = join_slash, Base = base_slash,
            json_Unmarshal = (\<lambda>data. if data = manifest0_json then Some manifest0 else None),
            json_Marshal = (\<lambda>samples. None),
            proto_Marshal = (\<lambda>c. None),
            proto_Unmarshal = (\<lambda>data. None),
            EqualFold = (\<lambda>s t. s = t),
            sha256_hex = (\<lambda>data. [])\<rparr>"

definition extraction0 :: Extraction where
  "extraction0 = \<lparr>SourceID = ''img-2'', RepoName = ''ubuntu'', BaseDir = ''/tmp/hashr-img-2-17/'',
                   SourceSHA256 = ''5a3b'', Path = ''/tmp/hashr-img-2-17/export''\<rparr>"

definition fs0 :: fs where
  "fs0 = \<lparr>files = [''/tmp/hashr-img-2-17/export/hashes.json'' \<mapsto> manifest0_json],
          dirs = {''/tmp/hashr-img-2-17/export''}, read_fails = {}, remove_fails = {},
          create_fails = {}, mkdir_fails = {}, write_limit = Map.empty\<rparr>"

definition cache0 :: cache where
  "cache0 = [''aa'' \<mapsto> \<lparr>LastUpdated = 3,
               entries = [\<lparr>SourceId = ''img-1'', SourceHash = ''dcb3'', EntryPath = []\<rparr>]\<rparr>]"

lemma Check_entry_fst_cong:
  "Sha256 s = Sha256 s' \<Longrightarrow> fst (Check_entry e t s c) = fst (Check_entry e t s' c)"
  by (auto simp: Check_entry_def split: option.splits)

lemma Check_loop_fst_cong:
  "map Sha256 xs = map Sha256 ys \<Longrightarrow>
   fst (Check_loop e now i xs c ex) = fst (Check_loop e now i ys c ex')"
proof (induction xs arbitrary: ys i c ex ex')
  case Nil
  then show ?case by simp
next
  case (Cons x xs)
  then obtain y ys' where ys: "ys = y # ys'" and xy: "Sha256 x = Sha256 y"
    and rest: "map Sha256 xs = map Sha256 ys'" by (cases ys) auto
  obtain c1 o1 where s1: "Check_entry e (now i) x c = (c1, o1)" by (cases "Check_entry e (now i) x c")
  obtain c2 o2 where s2: "Check_entry e (now i) y c = (c2, o2)" by (cases "Check_entry e (now i) y c")
  have "c1 = c2" using Check_entry_fst_cong[OF xy, of e "now i" c] s1 s2 by simp
  moreover have "fst (Check_loop e now (Suc i) xs c1 (ex @ [o1])) = fst (Check_loop e now (Suc i) ys' c1 (ex' @ [o2]))"
    using rest by (rule Cons.IH)
  ultimately show ?case using ys s1 s2 by simp
qed

lemma Check_entry_snd:
  "snd (Check_entry e t s c) = \<lparr>Sha256 = Sha256 s, Paths = Paths s, Upload = (c (Sha256 s) = None)\<rparr>"
  by (auto simp: Check_entry_def newExport_def split: option.splits)

lemma cache_at_Suc:
  assumes "i < length xs"
  shows "cache_at e now xs c (Suc i) = fst (Check_entry e (now i) (xs ! i) (cache_at e now xs c i))"
proof -
  have "take (Suc i) xs = take i xs @ [xs ! i]" using assms by (simp add: take_Suc_conv_app_nth)
  moreover have "length (take i xs) = i" using assms by simp
  ultimately show ?thesis
    by (simp add: cache_at_def Check_loop_append split: prod.splits)
qed

text \<open>
  Claim C2. When \<^verbatim>\<open>hashes.json\<close> is read and decoded, \<^verbatim>\<open>Check\<close> returns one sample
  per entry of the manifest, in the manifest's order. Sample \<open>i\<close> has the digest of entry
  \<open>i\<close> and the paths of entry \<open>i\<close>, each joined with the extraction's \<^verbatim>\<open>Path\<close>. Its
  upload flag is true exactly when the cache does not hold the digest at the moment entry
  \<open>i\<close> is processed, that is when the digest is neither in the cache the call started
  with nor listed earlier in the manifest; in that case the loop stores a fresh entry with
  the one new occurrence.
\<close>

theorem Check_samples:
  assumes rd: "ioutil_ReadFile f (Join L [Path e, ''hashes.json'']) = Inr data"
      and js: "json_Unmarshal L data = Some manifest"
  shows "\<exists>c' exports. Check L now f e c = (c', Inr exports) \<and> length exports = length manifest \<and>
     c' = cache_at e now manifest c (length manifest) \<and>
     (\<forall>i<length manifest.
         Sha256 (exports ! i) = Sha256 (manifest ! i) \<and>
         Paths (exports ! i) = map (\<lambda>p. Join L [Path e, p]) (Paths (manifest ! i)) \<and>
         Upload (exports ! i) = (cache_at e now manifest c i (Sha256 (manifest ! i)) = None) \<and>
         (cache_at e now manifest c i (Sha256 (manifest ! i)) = None \<longleftrightarrow>
            c (Sha256 (manifest ! i)) = None \<and> Sha256 (manifest ! i) \<notin> Sha256 ` set (take i manifest)) \<and>
         (cache_at e now manifest c i (Sha256 (manifest ! i)) = None \<longrightarrow>
            cache_at e now manifest c (Suc i) (Sha256 (manifest ! i)) =
              Some \<lparr>LastUpdated = now i, entries = [newCacheEntry e]\<rparr>))"
proof -
  let ?J = "map (\<lambda>sample. sample\<lparr>Paths := map (\<lambda>p. Join L [Path e, p]) (Paths sample)\<rparr>) manifest"
  have rj: "readJSON L f e = Inr ?J"
    using rd js by (simp add: readJSON_def)
  have shas: "map Sha256 ?J = map Sha256 manifest" by simp
  have at: "\<And>i. fst (Check_loop e now 0 (take i ?J) c []) = cache_at e now manifest c i"
  proof -
    fix i
    have "map Sha256 (take i ?J) = map Sha256 (take i manifest)"
      by (simp add: take_map)
    then show "fst (Check_loop e now 0 (take i ?J) c []) = cache_at e now manifest c i"
      unfolding cache_at_def by (rule Check_loop_fst_cong)
  qed
  obtain c' exports where cl: "Check_loop e now 0 ?J c [] = (c', exports)"
    by (cases "Check_loop e now 0 ?J c []")
  have ck: "Check L now f e c = (c', Inr exports)"
    using rj cl by (simp add: Check_def)
  have len: "length exports = length manifest"
    using Check_loop_length[of e now 0 ?J c "[]"] cl by simp
  have fin: "c' = cache_at e now manifest c (length manifest)"
    using at[of "length manifest"] cl by simp
  have each: "Sha256 (exports ! i) = Sha256 (manifest ! i) \<and>
         Paths (exports ! i) = map (\<lambda>p. Join L [Path e, p]) (Paths (manifest ! i)) \<and>
         Upload (exports ! i) = (cache_at e now manifest c i (Sha256 (manifest ! i)) = None) \<and>
         (cache_at e now manifest c i (Sha256 (manifest ! i)) = None \<longleftrightarrow>
            c (Sha256 (manifest ! i)) = None \<and> Sha256 (manifest ! i) \<notin> Sha256 ` set (take i manifest)) \<and>
         (cache_at e now manifest c i (Sha256 (manifest ! i)) = None \<longrightarrow>
            cache_at e now manifest c (Suc i) (Sha256 (manifest ! i)) =
              Some \<lparr>LastUpdated = now i, entries = [newCacheEntry e]\<rparr>)"
    if i: "i < length manifest" for i
  proof -
    have iJ: "i < length ?J" using i by simp
    have nth: "exports ! i = snd (Check_entry e (now i) (?J ! i) (cache_at e now manifest c i))"
      using Check_loop_nth[OF iJ, of e now 0 c] cl at[of i] by simp
    have Ji: "Sha256 (?J ! i) = Sha256 (manifest ! i)"
      "Paths (?J ! i) = map (\<lambda>p. Join L [Path e, p]) (Paths (manifest ! i))"
      using i by simp_all
    have a: "Sha256 (exports ! i) = Sha256 (manifest ! i)"
      and b: "Paths (exports ! i) = map (\<lambda>p. Join L [Path e, p]) (Paths (manifest ! i))"
      and u: "Upload (exports ! i) = (cache_at e now manifest c i (Sha256 (manifest ! i)) = None)"
      using nth Ji by (simp_all add: Check_entry_snd)
    have n: "cache_at e now manifest c i (Sha256 (manifest ! i)) = None \<longleftrightarrow>
            c (Sha256 (manifest ! i)) = None \<and> Sha256 (manifest ! i) \<notin> Sha256 ` set (take i manifest)"
      unfolding cache_at_def by (rule Check_loop_None_iff)
    have s: "cache_at e now manifest c i (Sha256 (manifest ! i)) = None \<longrightarrow>
            cache_at e now manifest c (Suc i) (Sha256 (manifest ! i)) =
              Some \<lparr>LastUpdated = now i, entries = [newCacheEntry e]\<rparr>"
      using cache_at_Suc[OF i, of e now c] by (simp add: Check_entry_def)
    show ?thesis using a b u n s by blast
  qed
  show ?thesis using ck len fin each by blast
qed

theorem Check_samples_witness:
  "ioutil_ReadFile fs0 (Join lib0 [Path extraction0, ''hashes.json'']) = Inr manifest0_json \<and>
   json_Unmarshal lib0 manifest0_json = Some manifest0 \<and>
   (\<exists>c' exports. Check lib0 (\<lambda>i. 10 + i) fs0 extraction0 cache0 = (c', Inr exports) \<and>
     length exports = 2 \<and>
     Upload (exports ! 0) = False \<and>
     Upload (exports ! 1) = True \<and> 
     Paths (exports ! 1) = [''/tmp/hashr-img-2-17/export/b.txt'', ''/tmp/hashr-img-2-17/export/lib/b.txt''] \<and>
     c' ''bb'' = Some \<lparr>LastUpdated = 11, entries = [newCacheEntry extraction0]\<rparr>)"
proof -
  have rd: "ioutil_ReadFile fs0 (Join lib0 [Path extraction0, ''hashes.json'']) = Inr manifest0_json"
    by (simp add: ioutil_ReadFile_def lib0_def extraction0_def fs0_def)
  have js: "json_Unmarshal lib0 manifest0_json = Some manifest0"
    by (simp add: lib0_def)
  have c1: "cache_at extraction0 (\<lambda>i. 10 + i) manifest0 cache0 0 = cache0"
    by (simp add: cache_at_def)
  have c2: "cache_at extraction0 (\<lambda>i. 10 + i) manifest0 cache0 (Suc 0) ''bb'' = None"
    by (simp add: cache_at_def manifest0_def cache0_def Check_entry_def)
  have c3: "cache_at extraction0 (\<lambda>i. 10 + i) manifest0 cache0 2 ''bb'' = Some \<lparr>LastUpdated = 11, entries = [newCacheEntry extraction0]\<rparr>"
    by (simp add: cache_at_def manifest0_def cache0_def Check_entry_def numeral_2_eq_2)
  from Check_samples[OF rd js, of "\<lambda>i. 10 + i" cache0]
  obtain c' exports where
    ck: "Check lib0 (\<lambda>i. 10 + i) fs0 extraction0 cache0 = (c', Inr exports)"
    and len: "length exports = length manifest0"
    and fin: "c' = cache_at extraction0 (\<lambda>i. 10 + i) manifest0 cache0 (length manifest0)"
    and each: "\<forall>i<length manifest0.
         Sha256 (exports ! i) = Sha256 (manifest0 ! i) \<and>
         Paths (exports ! i) = map (\<lambda>p. Join lib0 [Path extraction0, p]) (Paths (manifest0 ! i)) \<and>
         Upload (exports ! i) = (cache_at extraction0 (\<lambda>i. 10 + i) manifest0 cache0 i (Sha256 (manifest0 ! i)) = None) \<and>
         (cache_at extraction0 (\<lambda>i. 10 + i) manifest0 cache0 i (Sha256 (manifest0 ! i)) = None \<longleftrightarrow>
            cache0 (Sha256 (manifest0 ! i)) = None \<and> Sha256 (manifest0 ! i) \<notin> Sha256 ` set (take i manifest0)) \<and>
         (cache_at extraction0 (\<lambda>i. 10 + i) manifest0 cache0 i (Sha256 (manifest0 ! i)) = None \<longrightarrow>
            cache_at extraction0 (\<lambda>i. 10 + i) manifest0 cache0 (Suc i) (Sha256 (manifest0 ! i)) =
              Some \<lparr>LastUpdated = (\<lambda>i. 10 + i) i, entries = [newCacheEntry extraction0]\<rparr>)"
    by blast
  have l2: "length manifest0 = 2" by (simp add: manifest0_def)
  have e0: "Upload (exports ! 0) = False"
    using each l2 c1 by (simp add: manifest0_def cache0_def)
  have e1: "Upload (exports ! 1) = True"
    using each[rule_format, of 1] l2 c2 by (simp add: manifest0_def)
  have p1: "Paths (exports ! 1) = [''/tmp/hashr-img-2-17/export/b.txt'', ''/tmp/hashr-img-2-17/export/lib/b.txt'']"
    using each[rule_format, of 1] l2 by (simp add: manifest0_def lib0_def extraction0_def)
  show ?thesis using rd js ck len l2 e0 e1 p1 fin c3 by simp
qed

text \<open>
  Claim C3, as the code has it. For every digest, the occurrences the cache holds after
  \<^verbatim>\<open>Check\<close> are those it held before, followed by one new occurrence for each entry
  of the manifest with that digest (none when the manifest cannot be read). Every new
  occurrence holds the source's id and the source's SHA-256 digest; its path field is
  empty, whether it is appended to an entry or is the only occurrence of a fresh one.
\<close>

theorem Check_occurrences:
  "entries_of (fst (Check L now f e c)) d =
     entries_of c d @
     replicate (case readJSON L f e of Inl err \<Rightarrow> 0 | Inr samples \<Rightarrow> count_list (map Sha256 samples) d)
       \<lparr>SourceId = SourceID e, SourceHash = SourceSHA256 e, EntryPath = []\<rparr>"
proof (cases "readJSON L f e")
  case (Inl err)
  then show ?thesis by (simp add: Check_def)
next
  case (Inr samples)
  obtain c' exports where cl: "Check_loop e now 0 samples c [] = (c', exports)"
    by (cases "Check_loop e now 0 samples c []")
  have "entries_of c' d = entries_of c d @ replicate (count_list (map Sha256 samples) d) (newCacheEntry e)"
    using Check_loop_entries[of e now 0 samples c "[]" d] cl by simp
  then show ?thesis using Inr cl by (simp add: Check_def newCacheEntry_def)
qed

text \<open>
  The claim as the specification words it fails: the manifest lists two paths for the
  digest \<open>bb\<close>, and the occurrence \<^verbatim>\<open>Check\<close> stores for it names the source and its
  digest and no path.
\<close>

theorem Check_occurrences_counterexample:
  "Paths (manifest0 ! 1) = [''b.txt'', ''lib/b.txt''] \<and>
   entries_of (fst (Check lib0 (\<lambda>i. 10 + i) fs0 extraction0 cache0)) ''bb'' =
     [\<lparr>SourceId = ''img-2'', SourceHash = ''5a3b'', EntryPath = []\<rparr>]"
  by (simp add: Check_def readJSON_def ioutil_ReadFile_def lib0_def extraction0_def fs0_def
      manifest0_def cache0_def Check_entry_def entries_of_def newCacheEntry_def)

subsection \<open>Package cache: Save and Load\<close>

definition cachePath :: "golib \<Rightarrow> string \<Rightarrow> string \<Rightarrow> string" where
  "cachePath L cacheDir repoName = Join L [cacheDir, ''hashr-cache-'' @ repoName]"

text \<open>
  \<^verbatim>\<open>Save\<close> copies the map into a \<^verbatim>\<open>cpb.Cache\<close> (the type assertions of the
  \<^verbatim>\<open>Range\<close> callback hold for every key and value of a \<open>cache\<close>), marshals it, creates
  or truncates the file at the cache path and writes the bytes to it.
\<close>

definition Save :: "golib \<Rightarrow> fs \<Rightarrow> string \<Rightarrow> string \<Rightarrow> cache \<Rightarrow> (error + unit) \<times> fs" where
  "Save L f repoName cacheDir cacheMap =
     (let p = cachePath L cacheDir repoName in
      case proto_Marshal L cacheMap of
        None \<Rightarrow> (Inl (Wrap (''error marshalling '' @ repoName @ '' repo cache'') ErrCodec), f)
      | Some data \<Rightarrow>
          (case os_Create f p of
             (Inl err, f') \<Rightarrow>
               (Inl (Wrap (''error opening '' @ repoName @ '' repo cache file for write'') err), f')
           | (Inr _, f') \<Rightarrow>
               (case file_Write f' p data of
                  (Inl err, f'') \<Rightarrow>
                    (Inl (Wrap (''error writing to '' @ repoName @ '' repo cache file'') err), f'')
                | (Inr _, f'') \<Rightarrow> (Inr (), f''))))"

text \<open>
  \<^verbatim>\<open>Load\<close>: no file at the cache path gives a new cache in memory; a file that cannot
  be read or decoded is removed, and the error of a failed removal is returned.
\<close>

definition removeCorrupted :: "fs \<Rightarrow> string \<Rightarrow> string \<Rightarrow> (error + cache) \<times> fs" where
  "removeCorrupted f repoName p =
     (case os_Remove f p of
        (Inl err, f') \<Rightarrow>
          (Inl (Wrap (''error while trying to delete the '' @ repoName @ '' repo cache file'') err), f')
      | (Inr _, f') \<Rightarrow> (Inr Map.empty, f'))"

definition Load :: "golib \<Rightarrow> fs \<Rightarrow> string \<Rightarrow> string \<Rightarrow> (error + cache) \<times> fs" where
  "Load L f repoName cacheDir =
     (let p = cachePath L cacheDir repoName in
      if os_IsNotExist (os_Stat f p) then (Inr Map.empty, f)
      else case ioutil_ReadFile f p of
             Inl err \<Rightarrow> removeCorrupted f repoName p
           | Inr data \<Rightarrow>
               (case proto_Unmarshal L data of
                  None \<Rightarrow> removeCorrupted f repoName p
                | Some c \<Rightarrow> (Inr c, f)))"

text \<open>The cache file cannot be read, or its bytes cannot be decoded.\<close>

definition unreadable :: "golib \<Rightarrow> fs \<Rightarrow> string \<Rightarrow> bool" where
  "unreadable L f p =
     (case ioutil_ReadFile f p of Inl err \<Rightarrow> True | Inr data \<Rightarrow> proto_Unmarshal L data = None)"

text \<open>
  Claim C10. When nothing exists at the cache path of the repository, \<^verbatim>\<open>Load\<close> returns
  an empty cache and no error, and the file system is as it was: no file is created and
  none is deleted.
\<close>

theorem Load_no_file:
  assumes "\<not> exists_path f (cachePath L cacheDir repoName)"
  shows "Load L f repoName cacheDir = (Inr Map.empty, f)"
  using assms by (simp add: Load_def Let_def os_Stat_def os_IsNotExist_def)

text \<open>
  Claim C6, as the code has it. When the cache file exists and cannot be read or decoded,
  \<^verbatim>\<open>Load\<close> removes it. If the removal succeeds, \<^verbatim>\<open>Load\<close> returns an empty
  cache and no error, the file is gone and every other file is as it was. If the removal
  fails, \<^verbatim>\<open>Load\<close> returns an error and the file system is as it was.
\<close>

theorem Load_corrupted:
  assumes ex: "exists_path f (cachePath L cacheDir repoName)"
      and bad: "unreadable L f (cachePath L cacheDir repoName)"
  shows "if cachePath L cacheDir repoName \<in> remove_fails f
         then (\<exists>err. Load L f repoName cacheDir = (Inl err, f))
         else (\<exists>f'. Load L f repoName cacheDir = (Inr Map.empty, f') \<and>
                 \<not> exists_path f' (cachePath L cacheDir repoName) \<and>
                 (\<forall>q. q \<noteq> cachePath L cacheDir repoName \<longrightarrow> files f' q = files f q))"
proof -
  let ?p = "cachePath L cacheDir repoName"
  have ld: "Load L f repoName cacheDir = removeCorrupted f repoName ?p"
    using ex bad
    by (auto simp: Load_def Let_def os_Stat_def os_IsNotExist_def unreadable_def split: sum.splits option.splits)
  show ?thesis
    using ex ld by (auto simp: removeCorrupted_def os_Remove_def exists_path_def)
qed

text \<open>
  Claim C7, as the code has it. \<^verbatim>\<open>Save\<close> writes the cache file in place. Once the
  cache is marshalled and the file at the cache path is created or truncated, the file
  holds the marshalled bytes when the write completes, and only the bytes written before
  the failure when it does not; \<^verbatim>\<open>Save\<close> returns no error exactly when the write
  completes.
\<close>

theorem Save_in_place:
  assumes m: "proto_Marshal L cacheMap = Some data"
      and cr: "cachePath L cacheDir repoName \<noteq> []"
              "cachePath L cacheDir repoName \<notin> create_fails f"
              "cachePath L cacheDir repoName \<notin> dirs f"
  shows "files (snd (Save L f repoName cacheDir cacheMap)) (cachePath L cacheDir repoName) =
           Some (case write_limit f (cachePath L cacheDir repoName) of
                   None \<Rightarrow> data | Some n \<Rightarrow> take n data) \<and>
         (fst (Save L f repoName cacheDir cacheMap) = Inr () \<longleftrightarrow>
            (case write_limit f (cachePath L cacheDir repoName) of
               None \<Rightarrow> True | Some n \<Rightarrow> length data \<le> n))"
  using assms
  by (auto simp: Save_def Let_def os_Create_def file_Write_def split: option.splits)

text \<open>
  A codec for the cache file that knows the bytes of one cache, cache files that are
  truncated, that cannot be removed, and that sit on a full disk.
\<close>

definition cache0_bytes :: string where
  "cache0_bytes = ''cache0 on the wire''"

definition lib1 :: golib where
  "lib1 = lib0\<lparr>proto_Marshal := (\<lambda>c. if c = cache0 then Some cache0_bytes else None),
                 proto_Unmarshal := (\<lambda>data. if data = cache0_bytes then Some cache0 else None)\<rparr>"

definition fs_corrupted :: fs where
  "fs_corrupted = fs0\<lparr>files := (files fs0)(''/var/cache/hashr-cache-ubuntu'' \<mapsto> ''cache0 on the w'')\<rparr>"

definition fs_stuck :: fs where
  "fs_stuck = fs_corrupted\<lparr>remove_fails := {''/var/cache/hashr-cache-ubuntu''}\<rparr>"

definition fs_full :: fs where
  "fs_full = fs0\<lparr>files := (files fs0)(''/var/cache/hashr-cache-ubuntu'' \<mapsto> ''an older cache''),
                 write_limit := [''/var/cache/hashr-cache-ubuntu'' \<mapsto> 6]\<rparr>"

lemma cachePath1: "cachePath lib1 ''/var/cache'' ''ubuntu'' = ''/var/cache/hashr-cache-ubuntu''"
  by (simp add: cachePath_def lib1_def lib0_def)

theorem Load_no_file_witness:
  "\<not> exists_path fs0 (cachePath lib1 ''/var/cache'' ''ubuntu'') \<and>
   Load lib1 fs0 ''ubuntu'' ''/var/cache'' = (Inr Map.empty, fs0)"
proof -
  have h: "\<not> exists_path fs0 (cachePath lib1 ''/var/cache'' ''ubuntu'')"
    unfolding cachePath1 by (simp add: exists_path_def fs0_def)
  show ?thesis using h Load_no_file[OF h] by simp
qed

theorem Load_corrupted_witness:
  "exists_path fs_corrupted (cachePath lib1 ''/var/cache'' ''ubuntu'') \<and>
   unreadable lib1 fs_corrupted (cachePath lib1 ''/var/cache'' ''ubuntu'') \<and>
   cachePath lib1 ''/var/cache'' ''ubuntu'' \<notin> remove_fails fs_corrupted \<and>
   (\<exists>f'. Load lib1 fs_corrupted ''ubuntu'' ''/var/cache'' = (Inr Map.empty, f') \<and>
         \<not> exists_path f' (cachePath lib1 ''/var/cache'' ''ubuntu''))"
proof -
  have ex: "exists_path fs_corrupted (cachePath lib1 ''/var/cache'' ''ubuntu'')"
    unfolding cachePath1 by (simp add: exists_path_def fs_corrupted_def)
  have bad: "unreadable lib1 fs_corrupted (cachePath lib1 ''/var/cache'' ''ubuntu'')"
    unfolding cachePath1
    by (simp add: unreadable_def ioutil_ReadFile_def fs_corrupted_def fs0_def lib1_def
        cache0_bytes_def manifest0_json_def)
  have rm: "cachePath lib1 ''/var/cache'' ''ubuntu'' \<notin> remove_fails fs_corrupted"
    by (simp add: fs_corrupted_def fs0_def)
  show ?thesis using ex bad rm Load_corrupted[OF ex bad] by auto
qed

text \<open>
  The claim as the specification words it fails: a truncated cache file that the system
  refuses to remove makes \<^verbatim>\<open>Load\<close> return an error, and the file stays.
\<close>

theorem Load_corrupted_counterexample:
  "files fs_stuck ''/var/cache/hashr-cache-ubuntu'' = Some ''cache0 on the w'' \<and>
   proto_Unmarshal lib1 ''cache0 on the w'' = None \<and>
   Load lib1 fs_stuck ''ubuntu'' ''/var/cache'' =
     (Inl (Wrap ''error while trying to delete the ubuntu repo cache file'' ErrIO), fs_stuck)"
  unfolding Load_def Let_def cachePath1
  by (simp add: os_Stat_def os_IsNotExist_def exists_path_def
      ioutil_ReadFile_def removeCorrupted_def os_Remove_def fs_stuck_def fs_corrupted_def fs0_def
      lib1_def cache0_bytes_def)

theorem Save_in_place_witness:
  "proto_Marshal lib1 cache0 = Some cache0_bytes \<and>
   cachePath lib1 ''/var/cache'' ''ubuntu'' \<noteq> [] \<and>
   cachePath lib1 ''/var/cache'' ''ubuntu'' \<notin> create_fails fs0 \<and>
   cachePath lib1 ''/var/cache'' ''ubuntu'' \<notin> dirs fs0 \<and>
   files (snd (Save lib1 fs0 ''ubuntu'' ''/var/cache'' cache0)) (cachePath lib1 ''/var/cache'' ''ubuntu'') =
     Some cache0_bytes \<and>
   fst (Save lib1 fs0 ''ubuntu'' ''/var/cache'' cache0) = Inr ()"
proof -
  have m: "proto_Marshal lib1 cache0 = Some cache0_bytes" by (simp add: lib1_def)
  have c0: "cachePath lib1 ''/var/cache'' ''ubuntu'' \<noteq> []"
    unfolding cachePath1 by simp
  have c1: "cachePath lib1 ''/var/cache'' ''ubuntu'' \<notin> create_fails fs0"
    by (simp add: fs0_def)
  have c2: "cachePath lib1 ''/var/cache'' ''ubuntu'' \<notin> dirs fs0"
    unfolding cachePath1 by (simp add: fs0_def)
  have w: "write_limit fs0 (cachePath lib1 ''/var/cache'' ''ubuntu'') = None"
    by (simp add: fs0_def)
  show ?thesis using m c0 c1 c2 w Save_in_place[OF m c0 c1 c2] by simp
qed

text \<open>
  The claim as the specification words it fails: on a disk that accepts six more bytes,
  \<^verbatim>\<open>Save\<close> returns an error and leaves the first six bytes of the new cache where
  the older cache was.
\<close>

theorem Save_in_place_counterexample:
  "files fs_full ''/var/cache/hashr-cache-ubuntu'' = Some ''an older cache'' \<and>
   proto_Marshal lib1 cache0 = Some ''cache0 on the wire'' \<and>
   fst (Save lib1 fs_full ''ubuntu'' ''/var/cache'' cache0) =
     Inl (Wrap ''error writing to ubuntu repo cache file'' ErrIO) \<and>
   files (snd (Save lib1 fs_full ''ubuntu'' ''/var/cache'' cache0)) ''/var/cache/hashr-cache-ubuntu'' =
     Some ''cache0''"
  unfolding Save_def Let_def cachePath1
  by (simp add: os_Create_def file_Write_def fs_full_def fs0_def lib1_def
      cache0_bytes_def)

subsection \<open>Package hashr: sources, job statuses and discovery\<close>

text \<open>
  A \<^verbatim>\<open>Source\<close> is an interface value; the model holds what its methods return.
  \<^verbatim>\<open>Preprocess\<close> and \<^verbatim>\<open>QuickSHA256Hash\<close> return a string or an error, and
  \<^verbatim>\<open>LocalPath\<close> is the path once the source is preprocessed.
\<close>

record Source =
  src_ID :: string
  src_RepoName :: string
  src_RepoPath :: string
  src_LocalPath :: string
  src_RemotePath :: string
  Preprocess :: "error + string"
  QuickSHA256Hash :: "error + string"

text \<open>The values of the type \<^verbatim>\<open>status\<close>, a string.\<close>

definition discovered :: string where "discovered = ''discovered''"
definition preprocessed :: string where "preprocessed = ''preprocessed''"
definition processed :: string where "processed = ''processed''"
definition cached :: string where "cached = ''cached''"
definition exported :: string where "exported = ''exported''"
definition failed :: string where "failed = ''failed''"
definition reprocess :: string where "reprocess = ''reprocess''"

fun contains :: "golib \<Rightarrow> string list \<Rightarrow> string \<Rightarrow> bool" where
  "contains L [] s = False"
| "contains L (element # slice) s = (if EqualFold L s element then True else contains L slice s)"

text \<open>
  The loop of \<^verbatim>\<open>newSources\<close> over the discovered sources: \<open>processedSources\<close> is the
  map \<^verbatim>\<open>FetchJobs\<close> returned, \<open>reprocessing\<close> is \<^verbatim>\<open>h.SourcesForReprocessing\<close>. A
  lookup of a missing key gives the empty string and \<^verbatim>\<open>processed = false\<close>.
\<close>

fun newSources_loop ::
  "golib \<Rightarrow> string list \<Rightarrow> (string \<rightharpoonup> string) \<Rightarrow> Source list \<Rightarrow> Source list \<Rightarrow> Source list"
where
  "newSources_loop L reprocessing processedSources [] new = new"
| "newSources_loop L reprocessing processedSources (source # sources) new =
     (case QuickSHA256Hash source of
        Inl err \<Rightarrow> newSources_loop L reprocessing processedSources sources new
      | Inr qHash \<Rightarrow>
          (let (status, processed) =
                 (case processedSources qHash of None \<Rightarrow> ([], False) | Some st \<Rightarrow> (st, True))
           in if \<not> processed \<or> contains L reprocessing qHash \<or> EqualFold L status reprocess
              then newSources_loop L reprocessing processedSources sources (new @ [source])
              else newSources_loop L reprocessing processedSources sources new))"

text \<open>
  \<^verbatim>\<open>newSources\<close>, given what \<^verbatim>\<open>DiscoverRepo\<close> and \<^verbatim>\<open>FetchJobs\<close> return.
\<close>

definition newSources ::
  "golib \<Rightarrow> string list \<Rightarrow> string \<Rightarrow> error + Source list \<Rightarrow> error + (string \<rightharpoonup> string) \<Rightarrow>
   error + Source list"
where
  "newSources L reprocessing repoName DiscoverRepo FetchJobs =
     (case DiscoverRepo of
        Inl err \<Rightarrow> Inl (Wrap (repoName @ '': error discovering repo'') err)
      | Inr sources \<Rightarrow>
          (case FetchJobs of
             Inl err \<Rightarrow> Inl (Wrap ''could not fetch processed sources from storage'' err)
           | Inr processedSources \<Rightarrow>
               Inr (newSources_loop L reprocessing processedSources sources [])))"

lemma contains_iff: "contains L slice s \<longleftrightarrow> (\<exists>element \<in> set slice. EqualFold L s element)"
  by (induction slice) auto

lemma newSources_loop_filter:
  "newSources_loop L reprocessing jobs sources new =
     new @ filter (\<lambda>source. \<exists>qHash. QuickSHA256Hash source = Inr qHash \<and>
                     (jobs qHash = None \<or> contains L reprocessing qHash \<or>
                      (\<exists>st. jobs qHash = Some st \<and> EqualFold L st reprocess))) sources"
  by (induction sources arbitrary: new) (auto split: sum.splits option.splits)

text \<open>
  Claim C5, as the code has it. When the repository is discovered and the job store is
  read, \<^verbatim>\<open>newSources\<close> returns, in the order of discovery, exactly the sources whose
  quick hash is computed and is absent from the job store, or matches an entry of the
  reprocess list under \<^verbatim>\<open>strings.EqualFold\<close>, or has a stored status that matches
  \<open>reprocess\<close> under \<^verbatim>\<open>strings.EqualFold\<close>. So a source whose quick hash is in the job
  store with a status that does not match \<open>reprocess\<close>, and that matches no entry of the
  reprocess list, is not returned.
\<close>

theorem newSources_dispatch:
  assumes "DiscoverRepo = Inr sources" and "FetchJobs = Inr jobs"
  shows "newSources L reprocessing repoName DiscoverRepo FetchJobs =
           Inr (filter (\<lambda>source. \<exists>qHash. QuickSHA256Hash source = Inr qHash \<and>
                          (jobs qHash = None \<or>
                           (\<exists>element \<in> set reprocessing. EqualFold L qHash element) \<or>
                           (\<exists>st. jobs qHash = Some st \<and> EqualFold L st reprocess))) sources) \<and>
         (\<forall>source qHash st.
            QuickSHA256Hash source = Inr qHash \<and> jobs qHash = Some st \<and>
            \<not> EqualFold L st reprocess \<and> (\<forall>element \<in> set reprocessing. \<not> EqualFold L qHash element)
            \<longrightarrow> (\<forall>new. newSources L reprocessing repoName DiscoverRepo FetchJobs = Inr new
                        \<longrightarrow> source \<notin> set new))"
proof -
  have eq: "newSources L reprocessing repoName DiscoverRepo FetchJobs =
           Inr (filter (\<lambda>source. \<exists>qHash. QuickSHA256Hash source = Inr qHash \<and>
                          (jobs qHash = None \<or>
                           (\<exists>element \<in> set reprocessing. EqualFold L qHash element) \<or>
                           (\<exists>st. jobs qHash = Some st \<and> EqualFold L st reprocess))) sources)"
    using assms by (simp add: newSources_def newSources_loop_filter contains_iff)
  show ?thesis unfolding eq by auto
qed

text \<open>
  \<^verbatim>\<open>strings.EqualFold\<close> on strings of ASCII bytes: equality once the letters
  \<open>A\<close> to \<open>Z\<close> are replaced by \<open>a\<close> to \<open>z\<close>.
\<close>

definition ascii_lower :: "char \<Rightarrow> char" where
  "ascii_lower ch =
     (case map_of (zip ''ABCDEFGHIJKLMNOPQRSTUVWXYZ'' ''abcdefghijklmnopqrstuvwxyz'') ch of
        None \<Rightarrow> ch | Some l \<Rightarrow> l)"

definition EqualFold_ascii :: "string \<Rightarrow> string \<Rightarrow> bool" where
  "EqualFold_ascii s t = (map ascii_lower s = map ascii_lower t)"

definition lib2 :: golib where
  "lib2 = lib0\<lparr>EqualFold := EqualFold_ascii\<rparr>"

definition source1 :: Source where
  "source1 = \<lparr>src_ID = ''img-1'', src_RepoName = ''ubuntu'', src_RepoPath = ''/repo'',
               src_LocalPath = ''/tmp/hashr-img-1-3/img-1.tar.gz'', src_RemotePath = ''/repo/img-1.tar.gz'',
               Preprocess = Inr ''/tmp/hashr-img-1-3/extracted'', QuickSHA256Hash = Inr ''7a3e''\<rparr>"

definition source2 :: Source where
  "source2 = \<lparr>src_ID = ''img-2'', src_RepoName = ''ubuntu'', src_RepoPath = ''/repo'',
               src_LocalPath = ''/tmp/hashr-img-2-17/img-2.tar.gz'', src_RemotePath = ''/repo/img-2.tar.gz'',
               Preprocess = Inr ''/tmp/hashr-img-2-17/extracted'', QuickSHA256Hash = Inr ''a1dd''\<rparr>"

definition jobs0 :: "string \<rightharpoonup> string" where
  "jobs0 = [''7a3e'' \<mapsto> ''exported'']"

theorem newSources_dispatch_witness:
  "newSources lib2 [] ''ubuntu'' (Inr [source1, source2]) (Inr jobs0) = Inr [source2] \<and>
   jobs0 ''7a3e'' = Some exported \<and> jobs0 ''a1dd'' = None"
proof -
  have q: "QuickSHA256Hash source1 = Inr ''7a3e''" "QuickSHA256Hash source2 = Inr ''a1dd''"
    by (simp_all add: source1_def source2_def)
  have j: "jobs0 ''7a3e'' = Some ''exported''" "jobs0 ''a1dd'' = None"
    by (simp_all add: jobs0_def)
  have e: "\<not> EqualFold lib2 ''exported'' reprocess"
    by (simp add: lib2_def EqualFold_ascii_def ascii_lower_def reprocess_def)
  from newSources_dispatch[OF refl refl, of lib2 "[]" "''ubuntu''" "[source1, source2]" jobs0]
  show ?thesis using q j e by (simp add: exported_def)
qed

text \<open>
  The claim as the specification words it fails: the quick hash \<open>7a3e\<close> is in the job
  store with the terminal status \<open>exported\<close>, it is also on the list of sources to
  reprocess, and the source is handed to the workers.
\<close>

theorem newSources_dispatch_counterexample:
  "jobs0 ''7a3e'' = Some exported \<and> exported \<noteq> reprocess \<and>
   newSources lib2 [''7a3e''] ''ubuntu'' (Inr [source1]) (Inr jobs0) = Inr [source1]"
  by (simp add: newSources_def jobs0_def source1_def lib2_def EqualFold_ascii_def
      exported_def reprocess_def)

text \<open>
  The comparison with \<open>reprocess\<close> folds case: a stored status \<open>REPROCESS\<close> sends the
  source to the workers as well.
\<close>

lemma newSources_status_fold_example:
  "newSources lib2 [] ''ubuntu'' (Inr [source1]) (Inr [''7a3e'' \<mapsto> ''REPROCESS'']) = Inr [source1]"
  by (simp add: newSources_def source1_def lib2_def EqualFold_ascii_def ascii_lower_def
      reprocess_def)

subsection \<open>Package hashr: saveSamples\<close>

text \<open>
  The inner loop of \<^verbatim>\<open>saveSamples\<close>: the first path \<^verbatim>\<open>os.Stat\<close> accepts, the empty
  string when there is none.
\<close>

fun firstValidPath :: "fs \<Rightarrow> string list \<Rightarrow> string" where
  "firstValidPath f [] = []"
| "firstValidPath f (path # paths) =
     (if os_Stat f path = Inr () then path else firstValidPath f paths)"

text \<open>The loop over the samples; \<open>samplesOut\<close> is the slice built so far.\<close>

fun saveSamples_loop ::
  "golib \<Rightarrow> string \<Rightarrow> Sample list \<Rightarrow> fs \<Rightarrow> Sample list \<Rightarrow> (error + Sample list) \<times> fs"
where
  "saveSamples_loop L destDir [] f samplesOut = (Inr samplesOut, f)"
| "saveSamples_loop L destDir (sample # samples) f samplesOut =
     (if \<not> Upload sample
      then saveSamples_loop L destDir samples f
             (samplesOut @ [\<lparr>Sha256 = Sha256 sample, Paths = [], Upload = False\<rparr>])
      else
        (case os_Mkdir f (Join L [destDir, Sha256 sample]) of
           (Inl err, f1) \<Rightarrow> (Inl err, f1)
         | (Inr _, f1) \<Rightarrow>
             (let samplePath = firstValidPath f1 (Paths sample) in
              case ioutil_ReadFile f1 samplePath of
                Inl err \<Rightarrow> (Inl err, f1)
              | Inr input \<Rightarrow>
                  (let destFile = Join L [destDir, Sha256 sample, Base L samplePath] in
                   case ioutil_WriteFile f1 destFile input of
                     (Inl err, f2) \<Rightarrow> (Inl err, f2)
                   | (Inr _, f2) \<Rightarrow>
                       saveSamples_loop L destDir samples f2
                         (samplesOut @ [\<lparr>Sha256 = Sha256 sample, Paths = [destFile], Upload = True\<rparr>])))))"

definition exportDir :: "golib \<Rightarrow> string \<Rightarrow> string \<Rightarrow> string \<Rightarrow> string \<Rightarrow> string" where
  "exportDir L exportPath sourceImporter sourceID sourceHash =
     Join L [exportPath, sourceImporter @ ''___'' @ sourceID @ ''___'' @ sourceHash]"

definition saveSamples ::
  "golib \<Rightarrow> string \<Rightarrow> fs \<Rightarrow> string \<Rightarrow> string \<Rightarrow> string \<Rightarrow> Sample list \<Rightarrow> (error + unit) \<times> fs"
where
  "saveSamples L exportPath f sourceImporter sourceID sourceHash samples =
     (let destDir = exportDir L exportPath sourceImporter sourceID sourceHash in
      case os_MkdirAll f destDir of
        (Inl err, f0) \<Rightarrow> (Inl err, f0)
      | (Inr _, f0) \<Rightarrow>
          (case saveSamples_loop L destDir samples f0 [] of
             (Inl err, f1) \<Rightarrow> (Inl err, f1)
           | (Inr samplesOut, f1) \<Rightarrow>
               (case json_Marshal L samplesOut of
                  None \<Rightarrow> (Inl ErrCodec, f1)
                | Some jsonBytes \<Rightarrow>
                    ioutil_WriteFile f1 (Join L [destDir, ''samples.json'']) jsonBytes)))"

text \<open>
  The file system when sample \<open>i\<close> is reached: the directory of the source is made and the
  first \<open>i\<close> samples are done.
\<close>

definition fs_at :: "golib \<Rightarrow> string \<Rightarrow> Sample list \<Rightarrow> fs \<Rightarrow> nat \<Rightarrow> fs" where
  "fs_at L destDir samples f i =
     snd (saveSamples_loop L destDir (take i samples) (snd (os_MkdirAll f destDir)) [])"

lemma firstValidPath_first:
  "firstValidPath f paths \<noteq> [] \<Longrightarrow>
   \<exists>pre post. paths = pre @ firstValidPath f paths # post \<and>
     exists_path f (firstValidPath f paths) \<and> (\<forall>q \<in> set pre. \<not> exists_path f q)"
proof (induction paths)
  case Nil
  then show ?case by simp
next
  case (Cons path paths)
  show ?case
  proof (cases "os_Stat f path = Inr ()")
    case True
    then have "exists_path f path" by (simp add: os_Stat_def split: if_splits)
    then have "path # paths = [] @ firstValidPath f (path # paths) # paths \<and>
        exists_path f (firstValidPath f (path # paths)) \<and> (\<forall>q \<in> set []. \<not> exists_path f q)"
      using True by simp
    then show ?thesis by blast
  next
    case False
    then have ne: "\<not> exists_path f path" by (simp add: os_Stat_def split: if_splits)
    have fv: "firstValidPath f (path # paths) = firstValidPath f paths" using False by simp
    then have "firstValidPath f paths \<noteq> []" using Cons.prems by simp
    then obtain pre post where p: "paths = pre @ firstValidPath f paths # post"
      "exists_path f (firstValidPath f paths)" "\<forall>q \<in> set pre. \<not> exists_path f q"
      using Cons.IH by blast
    have "path # paths = (path # pre) @ firstValidPath f paths # post" using p(1) by simp
    moreover have "\<forall>q \<in> set (path # pre). \<not> exists_path f q" using p(3) ne by simp
    ultimately show ?thesis using fv p(2) by metis
  qed
qed

lemma WriteFile_ok:
  "ioutil_WriteFile f p data = (Inr u, f') \<Longrightarrow> files f' p = Some data"
  by (auto simp: ioutil_WriteFile_def os_Create_def file_Write_def
      split: if_splits option.splits prod.splits sum.splits)

lemma ReadFile_ok:
  "ioutil_ReadFile f p = Inr data \<Longrightarrow> p \<noteq> [] \<and> files f p = Some data"
  by (auto simp: ioutil_ReadFile_def split: if_splits option.splits)

lemma saveSamples_loop_append:
  "saveSamples_loop L d (xs @ ys) f out =
     (case saveSamples_loop L d xs f out of
        (Inl err, f') \<Rightarrow> (Inl err, f')
      | (Inr out', f') \<Rightarrow> saveSamples_loop L d ys f' out')"
  by (induction xs arbitrary: f out)
     (auto simp: Let_def split: prod.splits sum.splits)

lemma saveSamples_loop_out:
  "saveSamples_loop L d xs f out = (Inr out', f') \<Longrightarrow>
   \<exists>os. out' = out @ os \<and> length os = length xs"
proof (induction xs arbitrary: f out)
  case Nil
  then show ?case by simp
next
  case (Cons x xs)
  show ?case
  proof (cases "Upload x")
    case False
    then have "saveSamples_loop L d xs f (out @ [\<lparr>Sha256 = Sha256 x, Paths = [], Upload = False\<rparr>]) = (Inr out', f')"
      using Cons.prems by simp
    then obtain os where "out' = (out @ [\<lparr>Sha256 = Sha256 x, Paths = [], Upload = False\<rparr>]) @ os" "length os = length xs"
      using Cons.IH by blast
    then show ?thesis by (intro exI[of _ "\<lparr>Sha256 = Sha256 x, Paths = [], Upload = False\<rparr> # os"]) simp
  next
    case True
    then obtain f2 y where "saveSamples_loop L d xs f2 (out @ [y]) = (Inr out', f')"
      using Cons.prems by (auto simp: Let_def split: prod.splits sum.splits)
    then obtain os where "out' = (out @ [y]) @ os" "length os = length xs"
      using Cons.IH by blast
    then show ?thesis by (intro exI[of _ "y # os"]) simp
  qed
qed

lemma saveSamples_loop_prefix:
  assumes "saveSamples_loop L d (xs @ ys) f out = (Inr out', f')"
  shows "\<exists>out1 f1. saveSamples_loop L d xs f out = (Inr out1, f1) \<and>
           saveSamples_loop L d ys f1 out1 = (Inr out', f')"
  using assms unfolding saveSamples_loop_append
  by (auto split: prod.splits sum.splits)

lemma saveSamples_loop_step:
  assumes i: "i < length samples"
      and ok: "saveSamples_loop L d samples f0 [] = (Inr out, f')"
  shows "\<exists>fi fj.
           snd (saveSamples_loop L d (take i samples) f0 []) = fi \<and>
           snd (saveSamples_loop L d (take (Suc i) samples) f0 []) = fj \<and>
           Sha256 (out ! i) = Sha256 (samples ! i) \<and>
           Upload (out ! i) = Upload (samples ! i) \<and>
           (if Upload (samples ! i)
            then (\<exists>g u data.
                    os_Mkdir fi (Join L [d, Sha256 (samples ! i)]) = (Inr u, g) \<and>
                    ioutil_ReadFile g (firstValidPath g (Paths (samples ! i))) = Inr data \<and>
                    Paths (out ! i) =
                      [Join L [d, Sha256 (samples ! i), Base L (firstValidPath g (Paths (samples ! i)))]] \<and>
                    files fj (Join L [d, Sha256 (samples ! i),
                                      Base L (firstValidPath g (Paths (samples ! i)))]) = Some data)
            else Paths (out ! i) = [] \<and> fj = fi)"
proof -
  let ?x = "samples ! i"
  have split: "samples = take i samples @ ?x # drop (Suc i) samples"
    using i by (simp add: id_take_nth_drop)
  have tk: "take (Suc i) samples = take i samples @ [?x]"
    using i by (simp add: take_Suc_conv_app_nth)
  from ok split have "saveSamples_loop L d (take i samples @ ?x # drop (Suc i) samples) f0 [] = (Inr out, f')"
    by simp
  then obtain out1 fi where p1: "saveSamples_loop L d (take i samples) f0 [] = (Inr out1, fi)"
    and p2: "saveSamples_loop L d (?x # drop (Suc i) samples) fi out1 = (Inr out, f')"
    using saveSamples_loop_prefix by blast
  have len1: "length out1 = i"
    using saveSamples_loop_out[OF p1] i by auto
  show ?thesis
  proof (cases "Upload ?x")
    case False
    let ?y = "\<lparr>Sha256 = Sha256 ?x, Paths = [], Upload = False\<rparr>"
    have r: "saveSamples_loop L d (drop (Suc i) samples) fi (out1 @ [?y]) = (Inr out, f')"
      using p2 False by simp
    then obtain os where "out = (out1 @ [?y]) @ os" using saveSamples_loop_out by blast
    then have oi: "out ! i = ?y" using len1 by (simp add: nth_append)
    have "saveSamples_loop L d (take (Suc i) samples) f0 [] = (Inr (out1 @ [?y]), fi)"
      unfolding tk saveSamples_loop_append using p1 False by simp
    then show ?thesis using p1 oi False by simp
  next
    case True
    obtain r1 g where mk: "os_Mkdir fi (Join L [d, Sha256 ?x]) = (r1, g)"
      by (cases "os_Mkdir fi (Join L [d, Sha256 ?x])")
    let ?p = "firstValidPath g (Paths ?x)"
    let ?dest = "Join L [d, Sha256 ?x, Base L ?p]"
    obtain u where r1: "r1 = Inr u"
      using p2 True mk by (cases r1) (auto simp: Let_def)
    obtain data where rd: "ioutil_ReadFile g ?p = Inr data"
      using p2 True mk r1 by (cases "ioutil_ReadFile g ?p") (auto simp: Let_def)
    obtain r2 fj where wr: "ioutil_WriteFile g ?dest data = (r2, fj)"
      by (cases "ioutil_WriteFile g ?dest data")
    obtain u2 where r2: "r2 = Inr u2"
      using p2 True mk r1 rd wr by (cases r2) (auto simp: Let_def)
    let ?y = "\<lparr>Sha256 = Sha256 ?x, Paths = [?dest], Upload = True\<rparr>"
    have r: "saveSamples_loop L d (drop (Suc i) samples) fj (out1 @ [?y]) = (Inr out, f')"
      using p2 True mk r1 rd wr r2 by (simp add: Let_def)
    then obtain os where "out = (out1 @ [?y]) @ os" using saveSamples_loop_out by blast
    then have oi: "out ! i = ?y" using len1 by (simp add: nth_append)
    have fj: "saveSamples_loop L d (take (Suc i) samples) f0 [] = (Inr (out1 @ [?y]), fj)"
      unfolding tk saveSamples_loop_append using p1 True mk r1 rd wr r2 by (simp add: Let_def)
    have cp: "files fj ?dest = Some data"
      using wr r2 WriteFile_ok by blast
    show ?thesis using p1 fj oi True mk r1 rd cp by simp
  qed
qed

text \<open>
  Claim C9, as the code has it. When \<^verbatim>\<open>saveSamples\<close> returns no error, the file
  \<^verbatim>\<open>samples.json\<close> in the directory
  \<^verbatim>\<open><export_root>/<repo>___<source_id>___<source_sha256>\<close> holds the encoding of a
  list with one element for each sample, in order, with the sample's digest and upload
  flag. A sample that is not marked for upload is listed with no paths. For a sample that
  is marked, the directory \<^verbatim>\<open><sample_sha256>\<close> is made, the first of the sample's
  paths that exists at that moment is read, its bytes are written to
  \<^verbatim>\<open><sample_sha256>/<basename>\<close> in the source's directory, and the manifest lists
  that destination as the only path of the sample.
\<close>

theorem saveSamples_layout:
  assumes ok: "saveSamples L exportPath f sourceImporter sourceID sourceHash samples = (Inr (), f')"
  shows "\<exists>samplesOut jsonBytes.
           json_Marshal L samplesOut = Some jsonBytes \<and>
           files f' (Join L [exportDir L exportPath sourceImporter sourceID sourceHash, ''samples.json''])
             = Some jsonBytes \<and>
           length samplesOut = length samples \<and>
           (\<forall>i<length samples.
              Sha256 (samplesOut ! i) = Sha256 (samples ! i) \<and>
              Upload (samplesOut ! i) = Upload (samples ! i) \<and>
              (if Upload (samples ! i)
               then (\<exists>g u data path.
                       os_Mkdir (fs_at L (exportDir L exportPath sourceImporter sourceID sourceHash) samples f i)
                         (Join L [exportDir L exportPath sourceImporter sourceID sourceHash, Sha256 (samples ! i)])
                         = (Inr u, g) \<and>
                       (\<exists>pre post. Paths (samples ! i) = pre @ path # post \<and>
                          exists_path g path \<and> (\<forall>q \<in> set pre. \<not> exists_path g q)) \<and>
                       files g path = Some data \<and>
                       Paths (samplesOut ! i) =
                         [Join L [exportDir L exportPath sourceImporter sourceID sourceHash,
                                  Sha256 (samples ! i), Base L path]] \<and>
                       files (fs_at L (exportDir L exportPath sourceImporter sourceID sourceHash) samples f (Suc i))
                         (Join L [exportDir L exportPath sourceImporter sourceID sourceHash,
                                  Sha256 (samples ! i), Base L path]) = Some data)
               else Paths (samplesOut ! i) = []))"
proof -
  let ?d = "exportDir L exportPath sourceImporter sourceID sourceHash"
  obtain r0 f0 where mk: "os_MkdirAll f ?d = (r0, f0)" by (cases "os_MkdirAll f ?d")
  obtain u0 where r0: "r0 = Inr u0" using ok mk by (cases r0) (auto simp: saveSamples_def Let_def)
  obtain r1 f1 where lp: "saveSamples_loop L ?d samples f0 [] = (r1, f1)"
    by (cases "saveSamples_loop L ?d samples f0 []")
  obtain out where r1: "r1 = Inr out"
    using ok mk r0 lp by (cases r1) (auto simp: saveSamples_def Let_def)
  obtain jsonBytes where js: "json_Marshal L out = Some jsonBytes"
    using ok mk r0 lp r1 by (cases "json_Marshal L out") (auto simp: saveSamples_def Let_def)
  have wr: "ioutil_WriteFile f1 (Join L [?d, ''samples.json'']) jsonBytes = (Inr (), f')"
    using ok mk r0 lp r1 js by (simp add: saveSamples_def Let_def)
  have fl: "files f' (Join L [?d, ''samples.json'']) = Some jsonBytes"
    using wr WriteFile_ok by blast
  have lok: "saveSamples_loop L ?d samples f0 [] = (Inr out, f1)" using lp r1 by simp
  have len: "length out = length samples"
    using saveSamples_loop_out[OF lok] by auto
  have f0: "snd (os_MkdirAll f ?d) = f0" using mk by simp
  have each: "Sha256 (out ! i) = Sha256 (samples ! i) \<and>
              Upload (out ! i) = Upload (samples ! i) \<and>
              (if Upload (samples ! i)
               then (\<exists>g u data path.
                       os_Mkdir (fs_at L ?d samples f i) (Join L [?d, Sha256 (samples ! i)]) = (Inr u, g) \<and>
                       (\<exists>pre post. Paths (samples ! i) = pre @ path # post \<and>
                          exists_path g path \<and> (\<forall>q \<in> set pre. \<not> exists_path g q)) \<and>
                       files g path = Some data \<and>
                       Paths (out ! i) = [Join L [?d, Sha256 (samples ! i), Base L path]] \<and>
                       files (fs_at L ?d samples f (Suc i))
                         (Join L [?d, Sha256 (samples ! i), Base L path]) = Some data)
               else Paths (out ! i) = [])"
    if i: "i < length samples" for i
  proof -
    from saveSamples_loop_step[OF i lok]
    have st: "Sha256 (out ! i) = Sha256 (samples ! i)" "Upload (out ! i) = Upload (samples ! i)"
      and br: "if Upload (samples ! i)
            then (\<exists>g u data.
                    os_Mkdir (fs_at L ?d samples f i) (Join L [?d, Sha256 (samples ! i)]) = (Inr u, g) \<and>
                    ioutil_ReadFile g (firstValidPath g (Paths (samples ! i))) = Inr data \<and>
                    Paths (out ! i) =
                      [Join L [?d, Sha256 (samples ! i), Base L (firstValidPath g (Paths (samples ! i)))]] \<and>
                    files (fs_at L ?d samples f (Suc i)) (Join L [?d, Sha256 (samples ! i),
                                      Base L (firstValidPath g (Paths (samples ! i)))]) = Some data)
            else Paths (out ! i) = []"
      unfolding fs_at_def f0 by auto
    show ?thesis
    proof (cases "Upload (samples ! i)")
      case False
      then show ?thesis using st br by simp
    next
      case True
      then obtain g u data where
        mk: "os_Mkdir (fs_at L ?d samples f i) (Join L [?d, Sha256 (samples ! i)]) = (Inr u, g)"
        and rd: "ioutil_ReadFile g (firstValidPath g (Paths (samples ! i))) = Inr data"
        and ps: "Paths (out ! i) =
                      [Join L [?d, Sha256 (samples ! i), Base L (firstValidPath g (Paths (samples ! i)))]]"
        and cp: "files (fs_at L ?d samples f (Suc i)) (Join L [?d, Sha256 (samples ! i),
                                      Base L (firstValidPath g (Paths (samples ! i)))]) = Some data"
        using br by auto
      let ?p = "firstValidPath g (Paths (samples ! i))"
      have ne: "?p \<noteq> []" and fp: "files g ?p = Some data"
        using ReadFile_ok[OF rd] by simp_all
      have first: "\<exists>pre post. Paths (samples ! i) = pre @ ?p # post \<and>
                          exists_path g ?p \<and> (\<forall>q \<in> set pre. \<not> exists_path g q)"
        using firstValidPath_first[OF ne] .
      show ?thesis using True st mk first fp ps cp by auto
    qed
  qed
  show ?thesis using js fl len each by blast
qed

text \<open>
  An encoder for \<^verbatim>\<open>json.Marshal\<close> of a slice of samples (keys \<open>sha256\<close>, \<open>paths\<close>,
  \<open>upload\<close>; a nil slice of paths is \<open>null\<close>; strings that need no escaping), the two
  samples \<^verbatim>\<open>Check\<close> returned above, and a file system in which the second path of
  the second sample exists.
\<close>

definition json_quote :: "string \<Rightarrow> string" where
  \<open>json_quote s = ''"'' @ s @ ''"''\<close>

fun json_strings :: "string list \<Rightarrow> string" where
  "json_strings [] = []"
| "json_strings [x] = json_quote x"
| "json_strings (x # y # ys) = json_quote x @ '','' @ json_strings (y # ys)"

definition json_sample :: "Sample \<Rightarrow> string" where
  \<open>json_sample s =
     ''{"sha256":'' @ json_quote (Sha256 s) @
     '',"paths":'' @ (if Paths s = [] then ''null'' else ''['' @ json_strings (Paths s) @ '']'') @
     '',"upload":'' @ (if Upload s then ''true'' else ''false'') @ ''}''\<close>

fun json_samples :: "Sample list \<Rightarrow> string" where
  "json_samples [] = []"
| "json_samples [x] = json_sample x"
| "json_samples (x # y # ys) = json_sample x @ '','' @ json_samples (y # ys)"

definition lib3 :: golib where
  "lib3 = lib0\<lparr>json_Marshal := (\<lambda>samples. Some (''['' @ json_samples samples @ '']''))\<rparr>"

definition samples1 :: "Sample list" where
  "samples1 = [\<lparr>Sha256 = ''aa'', Paths = [''/tmp/hashr-img-2-17/export/a.txt''], Upload = False\<rparr>,
               \<lparr>Sha256 = ''bb'', Paths = [''/tmp/hashr-img-2-17/export/b.txt'',
                                         ''/tmp/hashr-img-2-17/export/lib/b.txt''], Upload = True\<rparr>]"

definition fs1 :: fs where
  "fs1 = fs0\<lparr>files := (files fs0)(''/tmp/hashr-img-2-17/export/a.txt'' \<mapsto> ''bytes of a'',
                                     ''/tmp/hashr-img-2-17/export/lib/b.txt'' \<mapsto> ''bytes of b'')\<rparr>"

lemma exportDir1:
  "exportDir lib3 ''/tmp/hashr-uploads'' ''ubuntu'' ''img-2'' ''5a3b'' = ''/tmp/hashr-uploads/ubuntu___img-2___5a3b''"
  by (simp add: exportDir_def lib3_def lib0_def)

text \<open>
  The claim as the specification words it fails: \<^verbatim>\<open>saveSamples\<close> copies the first
  existing path of the sample marked for upload, and the manifest it writes lists the
  sample that is not marked without its path and the sample that is marked with the path
  of the copy.
\<close>

theorem saveSamples_layout_counterexample:
  \<open>Paths (samples1 ! 0) = [''/tmp/hashr-img-2-17/export/a.txt''] \<and>
   Paths (samples1 ! 1) = [''/tmp/hashr-img-2-17/export/b.txt'', ''/tmp/hashr-img-2-17/export/lib/b.txt''] \<and>
   fst (saveSamples lib3 ''/tmp/hashr-uploads'' fs1 ''ubuntu'' ''img-2'' ''5a3b'' samples1) = Inr () \<and>
   files (snd (saveSamples lib3 ''/tmp/hashr-uploads'' fs1 ''ubuntu'' ''img-2'' ''5a3b'' samples1))
     ''/tmp/hashr-uploads/ubuntu___img-2___5a3b/bb/b.txt'' = Some ''bytes of b'' \<and>
   files (snd (saveSamples lib3 ''/tmp/hashr-uploads'' fs1 ''ubuntu'' ''img-2'' ''5a3b'' samples1))
     ''/tmp/hashr-uploads/ubuntu___img-2___5a3b/samples.json'' =
     Some (''[{"sha256":"aa","paths":null,"upload":false},'' @
           ''{"sha256":"bb","paths":["/tmp/hashr-uploads/ubuntu___img-2___5a3b/bb/b.txt"],"upload":true}]'')\<close>
  unfolding saveSamples_def Let_def exportDir1
  by (simp add: Let_def samples1_def fs1_def fs0_def lib3_def lib0_def os_MkdirAll_def os_Mkdir_def
      os_Stat_def exists_path_def ioutil_ReadFile_def ioutil_WriteFile_def os_Create_def
      file_Write_def base_slash_def json_sample_def json_quote_def)

theorem saveSamples_layout_witness:
  "saveSamples lib3 ''/tmp/hashr-uploads'' fs1 ''ubuntu'' ''img-2'' ''5a3b'' samples1 =
     (Inr (), snd (saveSamples lib3 ''/tmp/hashr-uploads'' fs1 ''ubuntu'' ''img-2'' ''5a3b'' samples1)) \<and>
   (\<exists>samplesOut jsonBytes.
      json_Marshal lib3 samplesOut = Some jsonBytes \<and>
      files (snd (saveSamples lib3 ''/tmp/hashr-uploads'' fs1 ''ubuntu'' ''img-2'' ''5a3b'' samples1))
        ''/tmp/hashr-uploads/ubuntu___img-2___5a3b/samples.json'' = Some jsonBytes \<and>
      length samplesOut = 2 \<and>
      Upload (samplesOut ! 0) = False \<and> Paths (samplesOut ! 0) = [] \<and>
      Sha256 (samplesOut ! 1) = ''bb'' \<and> Upload (samplesOut ! 1) = True)"
proof -
  let ?r = "saveSamples lib3 ''/tmp/hashr-uploads'' fs1 ''ubuntu'' ''img-2'' ''5a3b'' samples1"
  have "fst ?r = Inr ()"
    unfolding saveSamples_def Let_def exportDir1
    by (simp add: Let_def samples1_def fs1_def fs0_def lib3_def lib0_def os_MkdirAll_def os_Mkdir_def
      os_Stat_def exists_path_def ioutil_ReadFile_def ioutil_WriteFile_def os_Create_def
      file_Write_def base_slash_def json_sample_def json_quote_def)
  then have ok: "?r = (Inr (), snd ?r)" by (cases ?r) simp
  have jn: "Join lib3 [''/tmp/hashr-uploads/ubuntu___img-2___5a3b'', ''samples.json''] =
      ''/tmp/hashr-uploads/ubuntu___img-2___5a3b/samples.json''"
    by (simp add: lib3_def lib0_def)
  have l2: "length samples1 = 2" by (simp add: samples1_def)
  have s0: "\<not> Upload (samples1 ! 0)" and s1: "Upload (samples1 ! 1)" "Sha256 (samples1 ! 1) = ''bb''"
    by (simp_all add: samples1_def)
  from saveSamples_layout[OF ok] obtain samplesOut jsonBytes where
    a: "json_Marshal lib3 samplesOut = Some jsonBytes"
    and b: "files (snd ?r) ''/tmp/hashr-uploads/ubuntu___img-2___5a3b/samples.json'' = Some jsonBytes"
    and c: "length samplesOut = length samples1"
    and d: "\<forall>i<length samples1.
              Sha256 (samplesOut ! i) = Sha256 (samples1 ! i) \<and>
              Upload (samplesOut ! i) = Upload (samples1 ! i) \<and>
              (Upload (samples1 ! i) \<or> Paths (samplesOut ! i) = [])"
    unfolding exportDir1 jn by (auto split: if_splits) 
  have d0: "Upload (samplesOut ! 0) = False \<and> Paths (samplesOut ! 0) = []"
    using d[rule_format, of 0] l2 s0 by simp
  have d1: "Sha256 (samplesOut ! 1) = ''bb'' \<and> Upload (samplesOut ! 1) = True"
    using d[rule_format, of 1] l2 s1 by simp
  show ?thesis using ok a b c l2 d0 d1 by auto
qed

subsection \<open>Package hashr: the processing worker\<close>

text \<open>
  \<^verbatim>\<open>ProcessingSource\<close>, the job record. The fields that hold clock readings
  (\<^verbatim>\<open>ImportedAt\<close> and the three durations) are left out; \<^verbatim>\<open>Error\<close> holds the error
  itself, \<open>None\<close> for the empty string.
\<close>

record ProcessingSource =
  ps_ID :: string
  ps_Repo :: string
  ps_RepoPath :: string
  ps_RemoteSourcePath :: string
  ps_Sha256 :: string
  Status :: string
  SampleCount :: nat
  ExportCount :: nat
  ps_Error :: "error option"

text \<open>
  What the worker calls outside the two packages: the processor's \<^verbatim>\<open>ImageExport\<close>,
  the exporter's \<^verbatim>\<open>Export\<close> (repository name and path, source id, source digest,
  remote path, samples), \<^verbatim>\<open>cmd.Run\<close> of an external command, and the clock that
  \<^verbatim>\<open>Check\<close> reads. \<^verbatim>\<open>Preprocess\<close> and \<^verbatim>\<open>ImageExport\<close> are taken by their
  results: the files they leave are in the file system the model runs on.
\<close>

record env =
  ImageExport :: "string \<Rightarrow> error + string"
  Exporter_Export :: "string \<Rightarrow> string \<Rightarrow> string \<Rightarrow> string \<Rightarrow> string \<Rightarrow> Sample list \<Rightarrow> error option"
  cmd_Run :: "string list \<Rightarrow> error option"
  Now :: "nat \<Rightarrow> nat"

text \<open>The settings of \<^verbatim>\<open>HashR\<close> the worker reads.\<close>

record HashR =
  Export :: bool
  ExportPath :: string
  CacheDir :: string

text \<open>
  What a worker does that is seen outside it, in the order it does it: a call of
  \<^verbatim>\<open>Storage.UpdateJobs\<close> with the quick hash and the job record, a call of
  \<^verbatim>\<open>cache.Check\<close> with what it returned, \<^verbatim>\<open>h.mu.Lock()\<close> and \<^verbatim>\<open>h.mu.Unlock()\<close>,
  a call of \<^verbatim>\<open>cache.Save\<close>, of the exporter, of \<^verbatim>\<open>saveSamples\<close>, and an external
  command that is run.
\<close>

datatype event =
    UpdateJobs string ProcessingSource
  | CacheCheck Extraction "error + Sample list"
  | MuLock
  | MuUnlock
  | CacheSave string
  | ExporterExport string "Sample list"
  | SaveSamples string "Sample list"
  | Exec "string list"

text \<open>
  The state a worker runs on: the file system, the cache of the repository, the counter
  and the job records of \<^verbatim>\<open>HashR\<close>, and the events so far.
\<close>

record state =
  st_fs :: fs
  st_cache :: cache
  cacheSaveCounter :: int
  processingSources :: "string \<rightharpoonup> ProcessingSource"
  trace :: "event list"

definition emit :: "event \<Rightarrow> state \<Rightarrow> state" where
  "emit ev st = st\<lparr>trace := trace st @ [ev]\<rparr>"

text \<open>
  The job record of a quick hash is changed through the map and handed to
  \<^verbatim>\<open>UpdateJobs\<close>; an error of \<^verbatim>\<open>UpdateJobs\<close> is logged and changes nothing.
\<close>

definition update :: "string \<Rightarrow> ProcessingSource \<Rightarrow> state \<Rightarrow> state" where
  "update qHash ps st =
     emit (UpdateJobs qHash ps) (st\<lparr>processingSources := (processingSources st)(qHash \<mapsto> ps)\<rparr>)"

text \<open>\<^verbatim>\<open>strings.HasPrefix\<close> and \<^verbatim>\<open>filepath.Split\<close> (the split after the last slash).\<close>

definition HasPrefix :: "string \<Rightarrow> string \<Rightarrow> bool" where
  "HasPrefix s pre = (take (length pre) s = pre)"

definition filepath_Split :: "string \<Rightarrow> string \<times> string" where
  "filepath_Split path =
     (let file = rev (takeWhile (\<lambda>ch. ch \<noteq> CHR ''/'') (rev path))
      in (take (length path - length file) path, file))"

definition sha256sum :: "golib \<Rightarrow> fs \<Rightarrow> string \<Rightarrow> error + string" where
  "sha256sum L f path =
     (case ioutil_ReadFile f path of Inl err \<Rightarrow> Inl err | Inr data \<Rightarrow> Inr (sha256_hex L data))"

text \<open>
  \<^verbatim>\<open>process\<close> returns the extraction and the error, if any. The second call of
  \<^verbatim>\<open>QuickSHA256Hash\<close> returns what the first returned, and the durations it stores in the
  job record are left out, so it changes nothing in the state.
\<close>

definition process :: "golib \<Rightarrow> env \<Rightarrow> fs \<Rightarrow> Source \<Rightarrow> Extraction \<times> error option" where
  "process L E f source =
     (case Preprocess source of
        Inl err \<Rightarrow>
          (\<lparr>SourceID = [], RepoName = [], BaseDir = [], SourceSHA256 = [], Path = []\<rparr>,
           Some (Wrap ''error while preprocessing'' err))
      | Inr plasoInput \<Rightarrow>
          (let extraction = \<lparr>SourceID = src_ID source, RepoName = src_RepoName source,
                              BaseDir = fst (filepath_Split (src_LocalPath source)),
                              SourceSHA256 = [], Path = []\<rparr>
           in case sha256sum L f (src_LocalPath source) of
                Inl err \<Rightarrow> (extraction, Some (Wrap ''error while hashing'' err))
              | Inr digest \<Rightarrow>
                  (case ImageExport E plasoInput of
                     Inl err \<Rightarrow>
                       (extraction\<lparr>SourceSHA256 := digest\<rparr>, Some (Wrap ''error while processing'' err))
                   | Inr path \<Rightarrow>
                       (extraction\<lparr>SourceSHA256 := digest, Path := path\<rparr>, None))))"

text \<open>
  \<^verbatim>\<open>cleanupLocalStorage\<close> runs \<^verbatim>\<open>sudo rm -rf path\<close> when the path starts with
  \<^verbatim>\<open>/tmp/hashr\<close>, and does nothing otherwise. What the command removes is not
  modelled: the worker does not read the files of the source again.
\<close>

definition cleanupLocalStorage :: "env \<Rightarrow> string \<Rightarrow> state \<Rightarrow> error option \<times> state" where
  "cleanupLocalStorage E path st =
     (if HasPrefix path ''/tmp/hashr''
      then (case cmd_Run E [''sudo'', ''rm'', ''-rf'', path] of
              Some err \<Rightarrow> (Some (Wrap (''error while trying to remove '' @ path) err),
                           emit (Exec [''sudo'', ''rm'', ''-rf'', path]) st)
            | None \<Rightarrow> (None, emit (Exec [''sudo'', ''rm'', ''-rf'', path]) st))
      else (None, st))"

text \<open>
  \<^verbatim>\<open>handleError\<close>: the job record (the one the map holds for the quick hash) becomes
  \<open>failed\<close> with the error, is handed to \<^verbatim>\<open>UpdateJobs\<close>, and the base directory is
  cleaned up; an error of the clean-up is logged.
\<close>

definition handleError ::
  "env \<Rightarrow> string \<Rightarrow> string \<Rightarrow> ProcessingSource \<Rightarrow> error \<Rightarrow> state \<Rightarrow> state"
where
  "handleError E quickHash extractionBaseDir processingSource err st =
     snd (cleanupLocalStorage E extractionBaseDir
            (update quickHash (processingSource\<lparr>Status := failed, ps_Error := Some err\<rparr>) st))"

text \<open>
  The end of an iteration that exported: the status \<open>exported\<close>, the clean-up, the
  unlock, and the counter.
\<close>

definition finish :: "env \<Rightarrow> string \<Rightarrow> Extraction \<Rightarrow> ProcessingSource \<Rightarrow> state \<Rightarrow> state" where
  "finish E qHash extraction ps st =
     (let st1 = update qHash (ps\<lparr>Status := exported\<rparr>) st;
          st2 = snd (cleanupLocalStorage E (BaseDir extraction) st1);
          st3 = emit MuUnlock st2
      in st3\<lparr>cacheSaveCounter := cacheSaveCounter st3 + 1\<rparr>)"

text \<open>
  The part of an iteration between \<^verbatim>\<open>h.mu.Lock()\<close> and \<^verbatim>\<open>h.mu.Unlock()\<close>: the cache
  is saved when the counter is above 20, then the samples are exported, or saved to disk
  when export is off.
\<close>

definition locked ::
  "golib \<Rightarrow> env \<Rightarrow> HashR \<Rightarrow> Source \<Rightarrow> string \<Rightarrow> Extraction \<Rightarrow> ProcessingSource \<Rightarrow> Sample list \<Rightarrow>
   state \<Rightarrow> state"
where
  "locked L E h source qHash extraction ps samples st =
     (let st1 =
            (if cacheSaveCounter st > 20
             then (case Save L (st_fs st) (src_RepoName source) (CacheDir h) (st_cache st) of
                     (r, f) \<Rightarrow> emit (CacheSave (src_RepoName source))
                                 (st\<lparr>st_fs := f, cacheSaveCounter := 0\<rparr>))
             else st)
      in if Export h
         then (let st2 = emit (ExporterExport (SourceID extraction) samples) st1
               in case Exporter_Export E (src_RepoName source) (src_RepoPath source)
                         (SourceID extraction) (SourceSHA256 extraction) (src_RemotePath source) samples of
                    Some err \<Rightarrow> emit MuUnlock (handleError E qHash (BaseDir extraction) ps err st2)
                  | None \<Rightarrow>
                      finish E qHash extraction
                        (ps\<lparr>SampleCount := length samples,
                            ExportCount := ExportCount ps + length (filter Upload samples)\<rparr>) st2)
         else (case saveSamples L (ExportPath h) (st_fs st1) (src_RepoName source)
                      (SourceID extraction) (SourceSHA256 extraction) samples of
                 (r, f) \<Rightarrow>
                   (let st2 = emit (SaveSamples (SourceID extraction) samples) (st1\<lparr>st_fs := f\<rparr>)
                    in case r of
                         Inl err \<Rightarrow> emit MuUnlock (handleError E qHash (BaseDir extraction) ps err st2)
                       | Inr u \<Rightarrow> finish E qHash extraction ps st2)))"

text \<open>One iteration of the loop of \<^verbatim>\<open>processingWorker\<close>, for one source.\<close>

definition processingWorker_body :: "golib \<Rightarrow> env \<Rightarrow> HashR \<Rightarrow> Source \<Rightarrow> state \<Rightarrow> state" where
  "processingWorker_body L E h source st =
     (case QuickSHA256Hash source of
        Inl err \<Rightarrow> st
      | Inr qHash \<Rightarrow>
          (let ps0 = \<lparr>ps_ID = src_ID source, ps_Repo = src_RepoName source,
                      ps_RepoPath = src_RepoPath source, ps_RemoteSourcePath = src_RemotePath source,
                      ps_Sha256 = [], Status = discovered, SampleCount = 0, ExportCount = 0,
                      ps_Error = None\<rparr>;
               st1 = update qHash ps0 st
           in case process L E (st_fs st1) source of
                (extraction, Some err) \<Rightarrow> handleError E qHash (BaseDir extraction) ps0 err st1
              | (extraction, None) \<Rightarrow>
                  (let ps1 = ps0\<lparr>ps_Sha256 := SourceSHA256 extraction, Status := processed\<rparr>;
                       st2 = update qHash ps1 st1
                   in case Check L (Now E) (st_fs st2) extraction (st_cache st2) of
                        (c, r) \<Rightarrow>
                          (let st3 = emit (CacheCheck extraction r) (st2\<lparr>st_cache := c\<rparr>)
                           in case r of
                                Inl err \<Rightarrow> handleError E qHash (BaseDir extraction) ps1 err st3
                              | Inr samples \<Rightarrow>
                                  (let ps2 = ps1\<lparr>Status := cached\<rparr>;
                                       st4 = update qHash ps2 st3
                                   in locked L E h source qHash extraction ps2 samples
                                        (emit MuLock st4))))))"

text \<open>A worker that receives the sources of the channel one after the other.\<close>

definition processingWorker :: "golib \<Rightarrow> env \<Rightarrow> HashR \<Rightarrow> Source list \<Rightarrow> state \<Rightarrow> state" where
  "processingWorker L E h sources st =
     foldl (\<lambda>st source. processingWorker_body L E h source st) st sources"

text \<open>The events of a run from \<open>st\<close> to \<open>st'\<close>.\<close>

definition emitted :: "state \<Rightarrow> state \<Rightarrow> event list" where
  "emitted st st' = drop (length (trace st)) (trace st')"

subsection \<open>The statuses a worker writes\<close>

text \<open>The quick hash and the status of every call of \<^verbatim>\<open>UpdateJobs\<close>, in order.\<close>

fun job_updates :: "event list \<Rightarrow> (string \<times> string) list" where
  "job_updates [] = []"
| "job_updates (UpdateJobs qHash ps # evs) = (qHash, Status ps) # job_updates evs"
| "job_updates (ev # evs) = job_updates evs"

text \<open>The place of a status in the order of the constants.\<close>

definition status_rank :: "string \<Rightarrow> nat" where
  "status_rank s =
     (if s = discovered then 0 else if s = preprocessed then 1 else if s = processed then 2
      else if s = cached then 3 else if s = exported then 4 else 5)"

lemma job_updates_append: "job_updates (xs @ ys) = job_updates xs @ job_updates ys"
  by (induction xs rule: job_updates.induct) auto

lemma trace_cleanup:
  "trace (snd (cleanupLocalStorage E path st)) =
     trace st @ (if HasPrefix path ''/tmp/hashr'' then [Exec [''sudo'', ''rm'', ''-rf'', path]] else [])"
  by (auto simp: cleanupLocalStorage_def emit_def split: option.splits)

lemma trace_update: "trace (update q ps st) = trace st @ [UpdateJobs q ps]"
  by (simp add: update_def emit_def)

lemma trace_emit: "trace (emit ev st) = trace st @ [ev]"
  by (simp add: emit_def)

lemma trace_handleError:
  "trace (handleError E q dir ps err st) =
     trace st @ UpdateJobs q (ps\<lparr>Status := failed, ps_Error := Some err\<rparr>) #
       (if HasPrefix dir ''/tmp/hashr'' then [Exec [''sudo'', ''rm'', ''-rf'', dir]] else [])"
  by (simp add: handleError_def trace_cleanup trace_update)

lemma trace_finish:
  "trace (finish E q extraction ps st) =
     trace st @ UpdateJobs q (ps\<lparr>Status := exported\<rparr>) #
       (if HasPrefix (BaseDir extraction) ''/tmp/hashr''
        then [Exec [''sudo'', ''rm'', ''-rf'', BaseDir extraction]] else []) @ [MuUnlock]"
  by (simp add: finish_def Let_def trace_cleanup trace_update trace_emit)

text \<open>The events of the locked part of an iteration.\<close>

definition locked_new ::
  "golib \<Rightarrow> env \<Rightarrow> HashR \<Rightarrow> Source \<Rightarrow> string \<Rightarrow> Extraction \<Rightarrow> ProcessingSource \<Rightarrow> Sample list \<Rightarrow>
   state \<Rightarrow> event list"
where
  "locked_new L E h source qHash extraction ps samples st =
     emitted st (locked L E h source qHash extraction ps samples st)"

lemma trace_locked:
  "trace (locked L E h source q extraction ps samples st) =
     trace st @ locked_new L E h source q extraction ps samples st"
  by (auto simp: locked_new_def emitted_def locked_def Let_def trace_handleError trace_finish
      trace_emit split: prod.splits option.splits sum.splits)

lemma cache_cleanup: "st_cache (snd (cleanupLocalStorage E path st)) = st_cache st"
  by (auto simp: cleanupLocalStorage_def emit_def split: option.splits)

lemma cache_handleError: "st_cache (handleError E q dir ps err st) = st_cache st"
  by (simp add: handleError_def cache_cleanup update_def emit_def)

lemma cache_finish: "st_cache (finish E q extraction ps st) = st_cache st"
  by (simp add: finish_def Let_def cache_cleanup update_def emit_def)

lemma cache_locked:
  "st_cache (locked L E h source q extraction ps samples st) = st_cache st"
  by (auto simp: locked_def Let_def cache_handleError cache_finish emit_def
      split: prod.splits option.splits sum.splits)

lemma job_updates_locked:
  "job_updates (locked_new L E h source q extraction ps samples st) = [(q, failed)] \<or>
   job_updates (locked_new L E h source q extraction ps samples st) = [(q, exported)]"
  by (auto simp: locked_new_def emitted_def locked_def Let_def trace_handleError trace_finish
      trace_emit job_updates_append split: prod.splits option.splits sum.splits)

lemma status_consts:
  "discovered \<noteq> failed" "discovered \<noteq> processed" "discovered \<noteq> cached"
  "discovered \<noteq> exported" "discovered \<noteq> preprocessed" "processed \<noteq> failed"
  "processed \<noteq> cached" "processed \<noteq> exported" "processed \<noteq> preprocessed"
  "cached \<noteq> failed" "cached \<noteq> exported" "cached \<noteq> preprocessed"
  "exported \<noteq> failed" "exported \<noteq> preprocessed" "failed \<noteq> preprocessed"
  by (simp_all add: discovered_def failed_def processed_def cached_def exported_def preprocessed_def)

lemma body_statuses:
  "case QuickSHA256Hash source of
      Inl err \<Rightarrow> job_updates (emitted st (processingWorker_body L E h source st)) = []
    | Inr qHash \<Rightarrow>
        job_updates (emitted st (processingWorker_body L E h source st)) \<in>
          {[(qHash, discovered), (qHash, failed)],
           [(qHash, discovered), (qHash, processed), (qHash, failed)],
           [(qHash, discovered), (qHash, processed), (qHash, cached), (qHash, failed)],
           [(qHash, discovered), (qHash, processed), (qHash, cached), (qHash, exported)]}"
proof (cases "QuickSHA256Hash source")
  case (Inl err)
  then show ?thesis by (simp add: processingWorker_body_def emitted_def)
next
  case (Inr q)
  show ?thesis
    using Inr job_updates_locked
    apply (simp add: processingWorker_body_def emitted_def Let_def split: prod.splits option.splits sum.splits)
    apply (auto simp: trace_handleError trace_update trace_emit trace_locked job_updates_append)
    done
qed

text \<open>
  Claim C4, as the code has it. The calls of \<^verbatim>\<open>UpdateJobs\<close> a worker makes for one
  source all carry the quick hash of the source, and their statuses are, in order,
  \<open>discovered\<close>, \<open>processed\<close>, \<open>cached\<close>, \<open>exported\<close>, or a beginning of that
  sequence followed by \<open>failed\<close> (after \<open>discovered\<close>, \<open>processed\<close> or \<open>cached\<close>);
  there is no call when the quick hash cannot be computed. The statuses never go
  backwards in the order of the constants, and \<open>preprocessed\<close> is never written.
\<close>

theorem worker_statuses:
  "(case QuickSHA256Hash source of
      Inl err \<Rightarrow> job_updates (emitted st (processingWorker_body L E h source st)) = []
    | Inr qHash \<Rightarrow>
        job_updates (emitted st (processingWorker_body L E h source st)) \<in>
          {[(qHash, discovered), (qHash, failed)],
           [(qHash, discovered), (qHash, processed), (qHash, failed)],
           [(qHash, discovered), (qHash, processed), (qHash, cached), (qHash, failed)],
           [(qHash, discovered), (qHash, processed), (qHash, cached), (qHash, exported)]}) \<and>
   sorted_wrt (<) (map (\<lambda>u. status_rank (snd u))
     (job_updates (emitted st (processingWorker_body L E h source st)))) \<and>
   preprocessed \<notin> snd ` set (job_updates (emitted st (processingWorker_body L E h source st)))"
proof -
  let ?u = "job_updates (emitted st (processingWorker_body L E h source st))"
  note m = body_statuses[where source=source and st=st and L=L and E=E and h=h]
  have s: "sorted_wrt (<) (map (\<lambda>u. status_rank (snd u)) ?u)"
    using m by (auto split: sum.splits simp: status_rank_def status_consts status_consts[symmetric])
  have p: "preprocessed \<notin> snd ` set ?u"
    using m by (auto split: sum.splits simp: status_consts status_consts[symmetric])
  show ?thesis using m s p by blast
qed

subsection \<open>The commands a worker runs\<close>

fun execs :: "event list \<Rightarrow> string list list" where
  "execs [] = []"
| "execs (Exec args # evs) = args # execs evs"
| "execs (ev # evs) = execs evs"

lemma execs_append: "execs (xs @ ys) = execs xs @ execs ys"
  by (induction xs rule: execs.induct) auto

lemma execs_locked:
  "execs (locked_new L E h source q extraction ps samples st) =
     (if HasPrefix (BaseDir extraction) ''/tmp/hashr''
      then [[''sudo'', ''rm'', ''-rf'', BaseDir extraction]] else [])"
  by (auto simp: locked_new_def emitted_def locked_def Let_def trace_handleError trace_finish
      trace_emit execs_append split: prod.splits option.splits sum.splits)

text \<open>
  Claim C8, as the code has it. The deletion is restricted by a test on the string, not
  on where the path leads: \<^verbatim>\<open>cleanupLocalStorage\<close> runs \<^verbatim>\<open>sudo rm -rf\<close> on a path
  that starts with the constant \<^verbatim>\<open>/tmp/hashr\<close> (\<^verbatim>\<open>strings.HasPrefix\<close>, on the path
  as it is given) and runs nothing on any other path. A worker that brings a source to
  \<open>exported\<close> or \<open>failed\<close> calls it once, on the base directory of the extraction
  \<^verbatim>\<open>process\<close> returned, and runs no other command: when the base directory does not
  start with \<^verbatim>\<open>/tmp/hashr\<close>, no deletion is attempted.
\<close>

theorem worker_cleanup:
  "trace (snd (cleanupLocalStorage E path st)) =
     trace st @ (if HasPrefix path ''/tmp/hashr'' then [Exec [''sudo'', ''rm'', ''-rf'', path]] else []) \<and>
   execs (emitted st (processingWorker_body L E h source st)) =
     (case QuickSHA256Hash source of
        Inl err \<Rightarrow> []
      | Inr qHash \<Rightarrow>
          if HasPrefix (BaseDir (fst (process L E (st_fs st) source))) ''/tmp/hashr''
          then [[''sudo'', ''rm'', ''-rf'', BaseDir (fst (process L E (st_fs st) source))]]
          else [])"
proof -
  have b: "execs (emitted st (processingWorker_body L E h source st)) =
     (case QuickSHA256Hash source of
        Inl err \<Rightarrow> []
      | Inr qHash \<Rightarrow>
          if HasPrefix (BaseDir (fst (process L E (st_fs st) source))) ''/tmp/hashr''
          then [[''sudo'', ''rm'', ''-rf'', BaseDir (fst (process L E (st_fs st) source))]]
          else [])"
  proof (cases "QuickSHA256Hash source")
    case (Inl err)
    then show ?thesis by (simp add: processingWorker_body_def emitted_def)
  next
    case (Inr q)
    have fs: "st_fs (update q ps st) = st_fs st" for ps
      by (simp add: update_def emit_def)
    show ?thesis
      using Inr
      apply (simp add: processingWorker_body_def emitted_def Let_def fs split: prod.splits option.splits sum.splits)
      apply (auto simp: trace_handleError trace_update trace_emit trace_locked execs_append execs_locked)
      done
  qed
  show ?thesis using b trace_cleanup by blast
qed

text \<open>
  A processor, an exporter and a shell that succeed, the settings of a run that exports,
  and a state in which the second source is on disk, preprocessed and extracted.
\<close>

definition lib4 :: golib where
  "lib4 = lib3\<lparr>sha256_hex := (\<lambda>data. if data = ''image bytes'' then ''5a3b'' else ''e3b0'')\<rparr>"

definition env0 :: env where
  "env0 = \<lparr>ImageExport = (\<lambda>input. Inr ''/tmp/hashr-img-2-17/export''),
            Exporter_Export = (\<lambda>repoName repoPath sourceID sourceHash remotePath samples. None),
            cmd_Run = (\<lambda>args. None),
            Now = (\<lambda>i. 10 + i)\<rparr>"

definition hashr0 :: HashR where
  "hashr0 = \<lparr>Export = True, ExportPath = ''/tmp/hashr-uploads'', CacheDir = ''/var/cache''\<rparr>"

definition state0 :: state where
  "state0 = \<lparr>st_fs = fs1\<lparr>files := (files fs1)(''/tmp/hashr-img-2-17/img-2.tar.gz'' \<mapsto> ''image bytes'')\<rparr>,
              st_cache = cache0, cacheSaveCounter = 0, processingSources = Map.empty, trace = []\<rparr>"

lemma process0: "process lib4 env0 (st_fs state0) source2 = (extraction0, None)"
  by (simp add: process_def source2_def filepath_Split_def sha256sum_def ioutil_ReadFile_def
      state0_def fs1_def fs0_def lib4_def env0_def Let_def extraction0_def)

lemma Check0:
  "Check lib4 (Now env0) (st_fs state0) extraction0 cache0 =
     (cache0(''aa'' \<mapsto> \<lparr>LastUpdated = 10,
                 entries = [\<lparr>SourceId = ''img-1'', SourceHash = ''dcb3'', EntryPath = []\<rparr>,
                            \<lparr>SourceId = ''img-2'', SourceHash = ''5a3b'', EntryPath = []\<rparr>]\<rparr>,
             ''bb'' \<mapsto> \<lparr>LastUpdated = 11,
                 entries = [\<lparr>SourceId = ''img-2'', SourceHash = ''5a3b'', EntryPath = []\<rparr>]\<rparr>),
      Inr samples1)"
  by (simp add: Check_def readJSON_def ioutil_ReadFile_def state0_def fs1_def fs0_def lib4_def lib3_def
      lib0_def extraction0_def manifest0_def Check_entry_def newCacheEntry_def newExport_def
      cache0_def samples1_def env0_def)

lemma state0_fields:
  "st_cache state0 = cache0" "trace state0 = []" "cacheSaveCounter state0 = 0"
  by (simp_all add: state0_def)

lemma update_fields:
  "st_fs (update q ps st) = st_fs st" "st_cache (update q ps st) = st_cache st"
  "cacheSaveCounter (update q ps st) = cacheSaveCounter st"
  by (simp_all add: update_def emit_def)

lemma emit_fields:
  "st_fs (emit ev st) = st_fs st" "st_cache (emit ev st) = st_cache st"
  "cacheSaveCounter (emit ev st) = cacheSaveCounter st"
  by (simp_all add: emit_def)

lemma body0_events:
  "emitted state0 (processingWorker_body lib4 env0 hashr0 source2 state0) =
     [UpdateJobs ''a1dd''
        \<lparr>ps_ID = ''img-2'', ps_Repo = ''ubuntu'', ps_RepoPath = ''/repo'',
         ps_RemoteSourcePath = ''/repo/img-2.tar.gz'', ps_Sha256 = [],
         Status = ''discovered'', SampleCount = 0, ExportCount = 0, ps_Error = None\<rparr>,
      UpdateJobs ''a1dd''
        \<lparr>ps_ID = ''img-2'', ps_Repo = ''ubuntu'', ps_RepoPath = ''/repo'',
         ps_RemoteSourcePath = ''/repo/img-2.tar.gz'', ps_Sha256 = ''5a3b'',
         Status = ''processed'', SampleCount = 0, ExportCount = 0, ps_Error = None\<rparr>,
      CacheCheck extraction0 (Inr samples1),
      UpdateJobs ''a1dd''
        \<lparr>ps_ID = ''img-2'', ps_Repo = ''ubuntu'', ps_RepoPath = ''/repo'',
         ps_RemoteSourcePath = ''/repo/img-2.tar.gz'', ps_Sha256 = ''5a3b'',
         Status = ''cached'', SampleCount = 0, ExportCount = 0, ps_Error = None\<rparr>,
      MuLock,
      ExporterExport ''img-2'' samples1,
      UpdateJobs ''a1dd''
        \<lparr>ps_ID = ''img-2'', ps_Repo = ''ubuntu'', ps_RepoPath = ''/repo'',
         ps_RemoteSourcePath = ''/repo/img-2.tar.gz'', ps_Sha256 = ''5a3b'',
         Status = ''exported'', SampleCount = 2, ExportCount = 1, ps_Error = None\<rparr>,
      Exec [''sudo'', ''rm'', ''-rf'', ''/tmp/hashr-img-2-17/''],
      MuUnlock]"
proof -
  have q: "QuickSHA256Hash source2 = Inr ''a1dd''" "src_ID source2 = ''img-2''"
    "src_RepoName source2 = ''ubuntu''" "src_RepoPath source2 = ''/repo''"
    "src_RemotePath source2 = ''/repo/img-2.tar.gz''"
    by (simp_all add: source2_def)
  have e: "BaseDir extraction0 = ''/tmp/hashr-img-2-17/''" "SourceID extraction0 = ''img-2''"
    "SourceSHA256 extraction0 = ''5a3b''"
    by (simp_all add: extraction0_def)
  have x: "Exporter_Export env0 a b c d e f = None" "cmd_Run env0 args = None" for a b c d e f args
    by (simp_all add: env0_def)
  have p: "HasPrefix ''/tmp/hashr-img-2-17/'' ''/tmp/hashr''" by (simp add: HasPrefix_def)
  have u: "length samples1 = 2" "length (filter Upload samples1) = 1"
    by (simp_all add: samples1_def)
  show ?thesis
    unfolding processingWorker_body_def emitted_def
    by (simp add: q Let_def update_fields emit_fields process0 state0_fields Check0 locked_def
        hashr0_def x e p u finish_def cleanupLocalStorage_def update_def emit_def
        discovered_def processed_def cached_def exported_def)
qed

text \<open>
  The claim as the specification words it fails: a source that is exported passes
  through \<open>discovered\<close>, \<open>processed\<close>, \<open>cached\<close> and \<open>exported\<close>, and no call of
  \<^verbatim>\<open>UpdateJobs\<close> writes \<open>preprocessed\<close>.
\<close>

theorem worker_statuses_counterexample:
  "job_updates (emitted state0 (processingWorker_body lib4 env0 hashr0 source2 state0)) =
     [(''a1dd'', ''discovered''), (''a1dd'', ''processed''), (''a1dd'', ''cached''),
      (''a1dd'', ''exported'')] \<and>
   preprocessed = ''preprocessed''"
  unfolding body0_events by (simp add: preprocessed_def)

text \<open>
  \<^verbatim>\<open>cleanupLocalStorage\<close> on a directory outside the temp root and on a temporary
  directory of an importer.
\<close>

lemma cleanupLocalStorage_examples:
  "cleanupLocalStorage env0 ''/data/images/'' state0 = (None, state0) \<and>
   trace (snd (cleanupLocalStorage env0 ''/tmp/hashr-img-2-17/'' state0)) =
     [Exec [''sudo'', ''rm'', ''-rf'', ''/tmp/hashr-img-2-17/'']]"
  by (simp add: cleanupLocalStorage_def HasPrefix_def env0_def emit_def state0_def)

text \<open>
  Where a path leads: its elements between the slashes, with the empty elements and
  \<open>.\<close> dropped and \<open>..\<close> taking back the element before it, as \<^verbatim>\<open>filepath.Clean\<close>
  resolves a rooted path. A path lies under a directory when the elements of the
  directory begin its own.
\<close>

fun path_elements :: "string \<Rightarrow> string \<Rightarrow> string list" where
  "path_elements acc [] = [rev acc]"
| "path_elements acc (ch # path) =
     (if ch = CHR ''/'' then rev acc # path_elements [] path else path_elements (ch # acc) path)"

fun resolve :: "string list \<Rightarrow> string list \<Rightarrow> string list" where
  "resolve stack [] = rev stack"
| "resolve stack (el # els) =
     (if el = [] \<or> el = ''.'' then resolve stack els
      else if el = ''..'' then resolve (tl stack) els
      else resolve (el # stack) els)"

definition lies_under :: "string \<Rightarrow> string \<Rightarrow> bool" where
  "lies_under root path =
     (take (length (resolve [] (path_elements [] root))) (resolve [] (path_elements [] path)) =
        resolve [] (path_elements [] root))"

text \<open>A source whose local path starts with the temp root and leads out of it.\<close>

definition source3 :: Source where
  "source3 = \<lparr>src_ID = ''img-3'', src_RepoName = ''ubuntu'', src_RepoPath = ''/repo'',
               src_LocalPath = ''/tmp/hashr/../../etc/passwd'', src_RemotePath = ''/repo/img-3.tar.gz'',
               Preprocess = Inr ''/tmp/hashr/../../etc/passwd'', QuickSHA256Hash = Inr ''c4f1''\<rparr>"

lemma process3:
  "process lib4 env0 (st_fs state0) source3 =
     (\<lparr>SourceID = ''img-3'', RepoName = ''ubuntu'', BaseDir = ''/tmp/hashr/../../etc/'',
       SourceSHA256 = [], Path = []\<rparr>, Some (Wrap ''error while hashing'' ErrNotExist))"
  by (simp add: process_def source3_def filepath_Split_def sha256sum_def ioutil_ReadFile_def
      state0_def fs1_def fs0_def Let_def)

text \<open>
  The claim as the specification words it fails: the base directory of this source
  starts with \<^verbatim>\<open>/tmp/hashr\<close> and leads to \<^verbatim>\<open>/etc\<close>, which does not lie under the
  temp root, and the worker runs the recursive delete on it.
\<close>

theorem worker_cleanup_counterexample:
  "src_LocalPath source3 = ''/tmp/hashr/../../etc/passwd'' \<and>
   BaseDir (fst (process lib4 env0 (st_fs state0) source3)) = ''/tmp/hashr/../../etc/'' \<and>
   resolve [] (path_elements [] ''/tmp/hashr/../../etc/'') = [''etc''] \<and>
   \<not> lies_under ''/tmp/hashr'' ''/tmp/hashr/../../etc/'' \<and>
   execs (emitted state0 (processingWorker_body lib4 env0 hashr0 source3 state0)) =
     [[''sudo'', ''rm'', ''-rf'', ''/tmp/hashr/../../etc/'']]"
proof -
  have q: "QuickSHA256Hash source3 = Inr ''c4f1''" "src_LocalPath source3 = ''/tmp/hashr/../../etc/passwd''"
    by (simp_all add: source3_def)
  have r: "resolve [] (path_elements [] ''/tmp/hashr/../../etc/'') = [''etc'']" by simp
  have u: "\<not> lies_under ''/tmp/hashr'' ''/tmp/hashr/../../etc/''"
    by (simp add: lies_under_def)
  have p: "HasPrefix ''/tmp/hashr/../../etc/'' ''/tmp/hashr''" by (simp add: HasPrefix_def)
  have e: "execs (emitted state0 (processingWorker_body lib4 env0 hashr0 source3 state0)) =
     [[''sudo'', ''rm'', ''-rf'', ''/tmp/hashr/../../etc/'']]"
    unfolding processingWorker_body_def emitted_def
    by (simp add: q Let_def update_fields process3 state0_fields p trace_handleError trace_update
        execs_append)
  show ?thesis using q r u e by (simp add: process3)
qed

subsection \<open>The mutex and the upload flags of a run\<close>

text \<open>
  The samples the calls of \<^verbatim>\<open>cache.Check\<close> returned, the number of samples of a digest
  that are marked for upload, and the kinds of events the mutex is about.
\<close>

fun check_results :: "event list \<Rightarrow> Sample list" where
  "check_results [] = []"
| "check_results (CacheCheck extraction (Inr samples) # evs) = samples @ check_results evs"
| "check_results (ev # evs) = check_results evs"

definition uploads :: "string \<Rightarrow> Sample list \<Rightarrow> nat" where
  "uploads d samples = length (filter (\<lambda>s. Upload s \<and> Sha256 s = d) samples)"

fun is_check :: "event \<Rightarrow> bool" where
  "is_check (CacheCheck extraction r) = True"
| "is_check ev = False"

fun is_save_or_export :: "event \<Rightarrow> bool" where
  "is_save_or_export (CacheSave repoName) = True"
| "is_save_or_export (ExporterExport sourceID samples) = True"
| "is_save_or_export (SaveSamples sourceID samples) = True"
| "is_save_or_export ev = False"

text \<open>The events of an iteration before it takes the mutex, and from there on.\<close>

definition before_lock :: "event list \<Rightarrow> event list" where
  "before_lock evs = takeWhile (\<lambda>ev. ev \<noteq> MuLock) evs"

definition from_lock :: "event list \<Rightarrow> event list" where
  "from_lock evs = dropWhile (\<lambda>ev. ev \<noteq> MuLock) evs"

lemma check_results_append: "check_results (xs @ ys) = check_results xs @ check_results ys"
  by (induction xs rule: check_results.induct) auto

lemma uploads_append: "uploads d (xs @ ys) = uploads d xs + uploads d ys"
  by (simp add: uploads_def)

lemma Check_entry_uploads:
  "uploads d [snd (Check_entry e t s c)] = (if c d = None \<and> d = Sha256 s then 1 else 0)"
  by (auto simp: Check_entry_def uploads_def newExport_def split: option.splits)

lemma Check_entry_sha: "Sha256 (snd (Check_entry e t s c)) = Sha256 s"
  by (auto simp: Check_entry_def newExport_def split: option.splits)

lemma Check_loop_uploads:
  "uploads d (snd (Check_loop e now i xs c ex)) =
     uploads d ex + (if c d = None \<and> d \<in> Sha256 ` set xs then 1 else 0)"
proof (induction xs arbitrary: i c ex)
  case Nil
  then show ?case by simp
next
  case (Cons x xs)
  obtain c' y where s: "Check_entry e (now i) x c = (c', y)" by (cases "Check_entry e (now i) x c")
  have u: "uploads d [y] = (if c d = None \<and> d = Sha256 x then 1 else 0)"
    using Check_entry_uploads[of d e "now i" x c] s by simp
  have n: "c' d = None \<longleftrightarrow> c d = None \<and> d \<noteq> Sha256 x"
    using Check_entry_None_iff[of e "now i" x c d] s by simp
  have "uploads d (snd (Check_loop e now (Suc i) xs c' (ex @ [y]))) =
          uploads d (ex @ [y]) + (if c' d = None \<and> d \<in> Sha256 ` set xs then 1 else 0)"
    by (rule Cons.IH)
  then show ?case using s u n by (auto simp: uploads_append)
qed

lemma Check_loop_shas:
  "Sha256 ` set (snd (Check_loop e now i xs c ex)) = Sha256 ` set ex \<union> Sha256 ` set xs"
proof (induction xs arbitrary: i c ex)
  case Nil
  then show ?case by simp
next
  case (Cons x xs)
  obtain c' y where s: "Check_entry e (now i) x c = (c', y)" by (cases "Check_entry e (now i) x c")
  have y: "Sha256 y = Sha256 x" using Check_entry_sha[of e "now i" x c] s by simp
  have "Sha256 ` set (snd (Check_loop e now (Suc i) xs c' (ex @ [y]))) =
          Sha256 ` set (ex @ [y]) \<union> Sha256 ` set xs"
    by (rule Cons.IH)
  then show ?case using s y by auto
qed

lemma Check_result:
  assumes "Check L now f e c = (c', r)"
  shows "case r of
           Inl err \<Rightarrow> c' = c
         | Inr samples \<Rightarrow>
             uploads d samples = (if c d = None \<and> d \<in> Sha256 ` set samples then 1 else 0) \<and>
             (c' d = None \<longleftrightarrow> c d = None \<and> d \<notin> Sha256 ` set samples)"
proof (cases "readJSON L f e")
  case (Inl err)
  then show ?thesis using assms by (auto simp: Check_def)
next
  case (Inr xs)
  obtain c1 out where cl: "Check_loop e now 0 xs c [] = (c1, out)"
    by (cases "Check_loop e now 0 xs c []")
  have r: "c' = c1" "r = Inr out" using assms Inr cl by (auto simp: Check_def)
  have sh: "Sha256 ` set out = Sha256 ` set xs"
    using Check_loop_shas[of e now 0 xs c "[]"] cl by simp
  have up: "uploads d out = (if c d = None \<and> d \<in> Sha256 ` set xs then 1 else 0)"
    using Check_loop_uploads[of d e now 0 xs c "[]"] cl by (simp add: uploads_def)
  have no: "c1 d = None \<longleftrightarrow> c d = None \<and> d \<notin> Sha256 ` set xs"
    using Check_loop_None_iff[of e now 0 xs c "[]" d] cl by simp
  show ?thesis using r sh up no by simp
qed

lemma check_results_cleanup [simp]:
  "check_results (if b then [Exec args] else []) = []"
  by simp

lemma check_results_locked:
  "check_results (locked_new L E h source q extraction ps samples st) = []"
  by (auto simp: locked_new_def emitted_def locked_def Let_def trace_handleError trace_finish
      trace_emit check_results_append split: prod.splits option.splits sum.splits)

text \<open>
  One iteration: its events extend the trace, the samples its call of \<^verbatim>\<open>Check\<close>
  returned mark a digest once when the cache did not hold it, and the cache holds what it
  held and what was listed.
\<close>

lemma body_uploads:
  "trace (processingWorker_body L E h source st) =
     trace st @ emitted st (processingWorker_body L E h source st) \<and>
   uploads d (check_results (emitted st (processingWorker_body L E h source st))) =
     (if st_cache st d = None \<and>
         d \<in> Sha256 ` set (check_results (emitted st (processingWorker_body L E h source st)))
      then 1 else 0) \<and>
   (st_cache (processingWorker_body L E h source st) d = None \<longleftrightarrow>
      st_cache st d = None \<and>
      d \<notin> Sha256 ` set (check_results (emitted st (processingWorker_body L E h source st))))"
proof (cases "QuickSHA256Hash source")
  case (Inl err)
  then show ?thesis by (simp add: processingWorker_body_def emitted_def uploads_def)
next
  case (Inr q)
  let ?ps0 = "\<lparr>ps_ID = src_ID source, ps_Repo = src_RepoName source,
                      ps_RepoPath = src_RepoPath source, ps_RemoteSourcePath = src_RemotePath source,
                      ps_Sha256 = [], Status = discovered, SampleCount = 0, ExportCount = 0,
                      ps_Error = None\<rparr>"
  obtain extraction perr where pr: "process L E (st_fs st) source = (extraction, perr)"
    by (cases "process L E (st_fs st) source")
  show ?thesis
  proof (cases perr)
    case (Some err)
    then show ?thesis using Inr pr
      by (simp add: processingWorker_body_def emitted_def Let_def update_fields
          trace_handleError trace_update cache_handleError check_results_append uploads_def)
  next
    case None
    obtain c r where ck: "Check L (Now E) (st_fs st) extraction (st_cache st) = (c, r)"
      by (cases "Check L (Now E) (st_fs st) extraction (st_cache st)")
    note cr = Check_result[OF ck, of d]
    show ?thesis
    proof (cases r)
      case (Inl err)
      then show ?thesis using Inr pr None ck cr
        by (simp add: processingWorker_body_def emitted_def Let_def update_fields emit_fields
            trace_handleError trace_update trace_emit cache_handleError check_results_append
            uploads_def emit_def)
    next
      case (Inr samples)
      then show ?thesis using \<open>QuickSHA256Hash source = Inr q\<close> pr None ck cr
        by (simp add: processingWorker_body_def emitted_def Let_def update_fields emit_fields
            trace_update trace_emit trace_locked cache_locked check_results_append
            check_results_locked emit_def update_def)
    qed
  qed
qed

lemma processingWorker_Cons:
  "processingWorker L E h (source # sources) st =
     processingWorker L E h sources (processingWorker_body L E h source st)"
  by (simp add: processingWorker_def)

lemma worker_uploads:
  "trace (processingWorker L E h sources st) =
     trace st @ emitted st (processingWorker L E h sources st) \<and>
   uploads d (check_results (emitted st (processingWorker L E h sources st))) =
     (if st_cache st d = None \<and>
         d \<in> Sha256 ` set (check_results (emitted st (processingWorker L E h sources st)))
      then 1 else 0) \<and>
   (st_cache (processingWorker L E h sources st) d = None \<longleftrightarrow>
      st_cache st d = None \<and>
      d \<notin> Sha256 ` set (check_results (emitted st (processingWorker L E h sources st))))"
proof (induction sources arbitrary: st)
  case Nil
  then show ?case by (simp add: processingWorker_def emitted_def uploads_def)
next
  case (Cons source sources)
  let ?st1 = "processingWorker_body L E h source st"
  let ?st2 = "processingWorker L E h sources ?st1"
  let ?e1 = "emitted st ?st1"
  let ?e2 = "emitted ?st1 ?st2"
  note b = body_uploads[of L E h source st d]
  note r = Cons.IH[of ?st1]
  have t1: "trace ?st1 = trace st @ ?e1" using b by blast
  have t2: "trace ?st2 = trace ?st1 @ ?e2" using r by blast
  have t: "trace ?st2 = trace st @ ?e1 @ ?e2" using t1 t2 by simp
  have e: "emitted st ?st2 = ?e1 @ ?e2"
    unfolding emitted_def[of st ?st2] t by simp
  have u1: "uploads d (check_results ?e1) =
     (if st_cache st d = None \<and> d \<in> Sha256 ` set (check_results ?e1) then 1 else 0)"
    and c1: "st_cache ?st1 d = None \<longleftrightarrow> st_cache st d = None \<and> d \<notin> Sha256 ` set (check_results ?e1)"
    using b by blast+
  have u2: "uploads d (check_results ?e2) =
     (if st_cache ?st1 d = None \<and> d \<in> Sha256 ` set (check_results ?e2) then 1 else 0)"
    and c2: "st_cache ?st2 d = None \<longleftrightarrow> st_cache ?st1 d = None \<and> d \<notin> Sha256 ` set (check_results ?e2)"
    using r by blast+
  have u: "uploads d (check_results (?e1 @ ?e2)) =
     (if st_cache st d = None \<and> d \<in> Sha256 ` set (check_results (?e1 @ ?e2)) then 1 else 0)"
    using u1 u2 c1 by (auto simp: check_results_append uploads_append)
  have c: "st_cache ?st2 d = None \<longleftrightarrow>
      st_cache st d = None \<and> d \<notin> Sha256 ` set (check_results (?e1 @ ?e2))"
    using c1 c2 by (auto simp: check_results_append)
  show ?case
    unfolding processingWorker_Cons e using t u c by simp
qed

subsection \<open>Where an iteration holds the mutex\<close>

lemma locked_new_shape:
  "locked_new L E h source q extraction ps samples st \<noteq> [] \<and>
   last (locked_new L E h source q extraction ps samples st) = MuUnlock \<and>
   count_list (locked_new L E h source q extraction ps samples st) MuUnlock = 1 \<and>
   count_list (locked_new L E h source q extraction ps samples st) MuLock = 0 \<and>
   filter is_check (locked_new L E h source q extraction ps samples st) = []"
  by (auto simp: locked_new_def emitted_def locked_def Let_def trace_handleError trace_finish
      trace_emit split: prod.splits option.splits sum.splits)

lemma body_lock:
  "filter is_check (from_lock (emitted st (processingWorker_body L E h source st))) = [] \<and>
   filter is_save_or_export (before_lock (emitted st (processingWorker_body L E h source st))) = [] \<and>
   (from_lock (emitted st (processingWorker_body L E h source st)) = [] \<or>
    hd (from_lock (emitted st (processingWorker_body L E h source st))) = MuLock \<and>
    last (emitted st (processingWorker_body L E h source st)) = MuUnlock \<and>
    count_list (emitted st (processingWorker_body L E h source st)) MuLock = 1 \<and>
    count_list (emitted st (processingWorker_body L E h source st)) MuUnlock = 1)"
proof (cases "QuickSHA256Hash source")
  case (Inl err)
  then show ?thesis
    by (simp add: processingWorker_body_def emitted_def from_lock_def before_lock_def)
next
  case (Inr q)
  show ?thesis
    using Inr locked_new_shape
    apply (simp add: processingWorker_body_def emitted_def Let_def split: prod.splits option.splits sum.splits)
    apply (auto simp: trace_handleError trace_update trace_emit trace_locked from_lock_def before_lock_def)
    done
qed

text \<open>
  Claim C1, as the code has it. In one iteration of a worker every call of
  \<^verbatim>\<open>cache.Check\<close> comes before the worker takes the mutex, and every periodic cache
  save, export and save-to-disk comes after it; an iteration that takes the mutex takes
  it once and releases it once, as its last step, after the clean-up that follows the
  export. When the sources of a run are processed one after the other, the number of
  samples \<^verbatim>\<open>Check\<close> returns with the upload flag set for a digest, over all sources of
  the run, is one if the cache did not hold the digest at the start and some returned
  sample has the digest, and zero otherwise.
\<close>

theorem mutex_and_uploads:
  "filter is_check (from_lock (emitted st (processingWorker_body L E h source st))) = [] \<and>
   filter is_save_or_export (before_lock (emitted st (processingWorker_body L E h source st))) = [] \<and>
   (from_lock (emitted st (processingWorker_body L E h source st)) = [] \<or>
    hd (from_lock (emitted st (processingWorker_body L E h source st))) = MuLock \<and>
    last (emitted st (processingWorker_body L E h source st)) = MuUnlock \<and>
    count_list (emitted st (processingWorker_body L E h source st)) MuLock = 1 \<and>
    count_list (emitted st (processingWorker_body L E h source st)) MuUnlock = 1) \<and>
   uploads d (check_results (emitted st (processingWorker L E h sources st))) =
     (if st_cache st d = None \<and>
         d \<in> Sha256 ` set (check_results (emitted st (processingWorker L E h sources st)))
      then 1 else 0)"
  using body_lock[of st L E h source] worker_uploads[of L E h sources st d] by blast

subsection \<open>Two workers inside Check\<close>

text \<open>
  Workers call \<^verbatim>\<open>cache.Check\<close> without the mutex, so the calls of several workers
  interleave at the operations of the \<^verbatim>\<open>sync.Map\<close>. The map holds pointers: it is a
  map from digests to addresses and a heap of \<^verbatim>\<open>cpb.Entries\<close> objects.
\<close>

record shared =
  sm_map :: "string \<rightharpoonup> nat"
  sm_heap :: "Entries list"

definition cache_of :: "shared \<Rightarrow> cache" where
  "cache_of sh d = map_option (\<lambda>a. sm_heap sh ! a) (sm_map sh d)"

text \<open>
  A worker inside the loop of \<^verbatim>\<open>Check\<close>: the samples still to do, the number done, the
  result of \<^verbatim>\<open>cache.Load\<close> for the first of them once it is called, and the samples to
  return.
\<close>

record checker =
  ck_extraction :: Extraction
  ck_samples :: "Sample list"
  ck_i :: nat
  ck_loaded :: "nat option option"
  ck_exports :: "Sample list"

text \<open>
  One step of a worker: \<^verbatim>\<open>cache.Load\<close>, or the branch that follows it, which appends
  to the object loaded or stores a new object.
\<close>

definition Check_step :: "(nat \<Rightarrow> nat) \<Rightarrow> checker \<Rightarrow> shared \<Rightarrow> checker \<times> shared" where
  "Check_step now k sh =
     (case ck_samples k of
        [] \<Rightarrow> (k, sh)
      | sample # samples \<Rightarrow>
          (case ck_loaded k of
             None \<Rightarrow> (k\<lparr>ck_loaded := Some (sm_map sh (Sha256 sample))\<rparr>, sh)
           | Some (Some a) \<Rightarrow>
               (k\<lparr>ck_samples := samples, ck_i := Suc (ck_i k), ck_loaded := None,
                  ck_exports := ck_exports k @ [newExport sample]\<rparr>,
                sh\<lparr>sm_heap := (sm_heap sh)
                       [a := (sm_heap sh ! a)
                               \<lparr>entries := entries (sm_heap sh ! a) @ [newCacheEntry (ck_extraction k)],
                                LastUpdated := now (ck_i k)\<rparr>]\<rparr>)
           | Some None \<Rightarrow>
               (k\<lparr>ck_samples := samples, ck_i := Suc (ck_i k), ck_loaded := None,
                  ck_exports := ck_exports k @ [(newExport sample)\<lparr>Upload := True\<rparr>]\<rparr>,
                sh\<lparr>sm_map := (sm_map sh)(Sha256 sample \<mapsto> length (sm_heap sh)),
                   sm_heap := sm_heap sh @
                     [\<lparr>LastUpdated = now (ck_i k), entries = [newCacheEntry (ck_extraction k)]\<rparr>]\<rparr>)))"

definition start_checker :: "Extraction \<Rightarrow> Sample list \<Rightarrow> checker" where
  "start_checker extraction samples =
     \<lparr>ck_extraction = extraction, ck_samples = samples, ck_i = 0, ck_loaded = None, ck_exports = []\<rparr>"

text \<open>A schedule names the worker that takes the next step.\<close>

definition sched_step ::
  "(nat \<Rightarrow> nat) \<Rightarrow> checker list \<times> shared \<Rightarrow> nat \<Rightarrow> checker list \<times> shared"
where
  "sched_step now cfg w =
     (if w < length (fst cfg)
      then (case Check_step now (fst cfg ! w) (snd cfg) of
              (k, sh) \<Rightarrow> ((fst cfg)[w := k], sh))
      else cfg)"

definition run_schedule ::
  "(nat \<Rightarrow> nat) \<Rightarrow> nat list \<Rightarrow> checker list \<times> shared \<Rightarrow> checker list \<times> shared"
where
  "run_schedule now ws cfg = foldl (sched_step now) cfg ws"

text \<open>
  Two sources of one repository whose manifests list the digest \<open>bb\<close>, as
  \<^verbatim>\<open>readJSON\<close> returns them, and a cache that holds nothing.
\<close>

definition extraction1 :: Extraction where
  "extraction1 = \<lparr>SourceID = ''img-1'', RepoName = ''ubuntu'', BaseDir = ''/tmp/hashr-img-1-3/'',
                   SourceSHA256 = ''dcb3'', Path = ''/tmp/hashr-img-1-3/export''\<rparr>"

definition worker1 :: checker where
  "worker1 = start_checker extraction1
     [\<lparr>Sha256 = ''bb'', Paths = [''/tmp/hashr-img-1-3/export/b.txt''], Upload = False\<rparr>]"

definition worker2 :: checker where
  "worker2 = start_checker extraction0
     [\<lparr>Sha256 = ''bb'', Paths = [''/tmp/hashr-img-2-17/export/b.txt''], Upload = False\<rparr>]"

definition shared0 :: shared where
  "shared0 = \<lparr>sm_map = Map.empty, sm_heap = []\<rparr>"

text \<open>
  The claim as the specification words it fails: the worker of the example above calls
  \<^verbatim>\<open>Check\<close> before it takes the mutex; and when two workers call \<^verbatim>\<open>cache.Load\<close> for
  \<open>bb\<close> before either stores it, both find it absent and both return the sample with
  the upload flag set.
\<close>

theorem mutex_and_uploads_counterexample:
  "filter is_check (before_lock (emitted state0 (processingWorker_body lib4 env0 hashr0 source2 state0))) =
     [CacheCheck extraction0 (Inr samples1)] \<and>
   cache_of shared0 ''bb'' = None \<and>
   map ck_samples (fst (run_schedule (\<lambda>i. 10 + i) [0, 1, 0, 1] ([worker1, worker2], shared0))) = [[], []] \<and>
   map ck_exports (fst (run_schedule (\<lambda>i. 10 + i) [0, 1, 0, 1] ([worker1, worker2], shared0))) =
     [[\<lparr>Sha256 = ''bb'', Paths = [''/tmp/hashr-img-1-3/export/b.txt''], Upload = True\<rparr>],
      [\<lparr>Sha256 = ''bb'', Paths = [''/tmp/hashr-img-2-17/export/b.txt''], Upload = True\<rparr>]] \<and>
   uploads ''bb''
     (concat (map ck_exports (fst (run_schedule (\<lambda>i. 10 + i) [0, 1, 0, 1] ([worker1, worker2], shared0))))) = 2"
  unfolding body0_events
  by (simp add: before_lock_def run_schedule_def sched_step_def Check_step_def worker1_def
      worker2_def start_checker_def shared0_def cache_of_def newExport_def uploads_def)

text \<open>
  A worker that takes all its steps with no other worker in between does what
  \<^verbatim>\<open>Check\<close> does: two steps are one pass through the body of the loop. The addresses of
  the map are in the heap, and no two digests share an object.
\<close>

definition wf_shared :: "shared \<Rightarrow> bool" where
  "wf_shared sh =
     ((\<forall>d a. sm_map sh d = Some a \<longrightarrow> a < length (sm_heap sh)) \<and>
      (\<forall>d d' a. sm_map sh d = Some a \<and> sm_map sh d' = Some a \<longrightarrow> d = d'))"

fun Check_steps :: "(nat \<Rightarrow> nat) \<Rightarrow> nat \<Rightarrow> checker \<Rightarrow> shared \<Rightarrow> checker \<times> shared" where
  "Check_steps now 0 k sh = (k, sh)"
| "Check_steps now (Suc n) k sh =
     (case Check_step now k sh of (k', sh') \<Rightarrow> Check_steps now n k' sh')"

lemma Check_two_steps:
  assumes wf: "wf_shared sh" and ld: "ck_loaded k = None" and sm: "ck_samples k = s # ss"
  shows "\<exists>k2 sh2. Check_steps now 2 k sh = (k2, sh2) \<and>
           ck_samples k2 = ss \<and> ck_i k2 = Suc (ck_i k) \<and> ck_loaded k2 = None \<and>
           ck_extraction k2 = ck_extraction k \<and>
           ck_exports k2 = ck_exports k @ [snd (Check_entry (ck_extraction k) (now (ck_i k)) s (cache_of sh))] \<and>
           cache_of sh2 = fst (Check_entry (ck_extraction k) (now (ck_i k)) s (cache_of sh)) \<and>
           wf_shared sh2"
proof (cases "sm_map sh (Sha256 s)")
  case None
  let ?fresh = "\<lparr>LastUpdated = now (ck_i k), entries = [newCacheEntry (ck_extraction k)]\<rparr>"
  let ?sh2 = "sh\<lparr>sm_map := (sm_map sh)(Sha256 s \<mapsto> length (sm_heap sh)),
                   sm_heap := sm_heap sh @ [?fresh]\<rparr>"
  let ?k2 = "k\<lparr>ck_loaded := Some None, ck_samples := ss, ck_i := Suc (ck_i k), ck_loaded := None,
                  ck_exports := ck_exports k @ [(newExport s)\<lparr>Upload := True\<rparr>]\<rparr>"
  have st: "Check_steps now 2 k sh = (?k2, ?sh2)"
    using ld sm None by (simp add: numeral_2_eq_2 Check_step_def)
  have cn: "cache_of sh (Sha256 s) = None" using None by (simp add: cache_of_def)
  have c: "cache_of ?sh2 = (cache_of sh)(Sha256 s \<mapsto> ?fresh)"
  proof
    fix d show "cache_of ?sh2 d = ((cache_of sh)(Sha256 s \<mapsto> ?fresh)) d"
      using wf by (cases "sm_map sh d") (auto simp: cache_of_def wf_shared_def nth_append)
  qed
  have b: "a < length (sm_heap sh)" if "sm_map sh d = Some a" for d a
    using wf that unfolding wf_shared_def by blast
  have i: "d = d'" if "sm_map sh d = Some a" "sm_map sh d' = Some a" for d d' a
    using wf that unfolding wf_shared_def by blast
  have w: "wf_shared ?sh2"
    unfolding wf_shared_def
  proof (intro conjI allI impI)
    fix d a
    assume "sm_map ?sh2 d = Some a"
    then show "a < length (sm_heap ?sh2)"
      using b[of d a] by (cases "d = Sha256 s") auto
  next
    fix d d' a
    assume "sm_map ?sh2 d = Some a \<and> sm_map ?sh2 d' = Some a"
    then show "d = d'"
      using b[of d a] b[of d' a] i[of d a d']
      by (cases "d = Sha256 s"; cases "d' = Sha256 s") auto
  qed
  show ?thesis using st c cn w by (simp add: Check_entry_def)
next
  case (Some a)
  let ?upd = "(sm_heap sh ! a)\<lparr>entries := entries (sm_heap sh ! a) @ [newCacheEntry (ck_extraction k)],
                                LastUpdated := now (ck_i k)\<rparr>"
  let ?sh2 = "sh\<lparr>sm_heap := (sm_heap sh)[a := ?upd]\<rparr>"
  let ?k2 = "k\<lparr>ck_loaded := Some (Some a), ck_samples := ss, ck_i := Suc (ck_i k), ck_loaded := None,
                  ck_exports := ck_exports k @ [newExport s]\<rparr>"
  have st: "Check_steps now 2 k sh = (?k2, ?sh2)"
    using ld sm Some by (simp add: numeral_2_eq_2 Check_step_def)
  have al: "a < length (sm_heap sh)" using wf Some by (auto simp: wf_shared_def)
  have cs: "cache_of sh (Sha256 s) = Some (sm_heap sh ! a)" using Some by (simp add: cache_of_def)
  have c: "cache_of ?sh2 = (cache_of sh)(Sha256 s \<mapsto> ?upd)"
  proof
    fix d show "cache_of ?sh2 d = ((cache_of sh)(Sha256 s \<mapsto> ?upd)) d"
    proof (cases "d = Sha256 s")
      case True
      then show ?thesis using Some al by (simp add: cache_of_def)
    next
      case False
      show ?thesis
      proof (cases "sm_map sh d")
        case None
        then show ?thesis using False by (simp add: cache_of_def)
      next
        case (Some b)
        have "b \<noteq> a" using wf Some \<open>sm_map sh (Sha256 s) = Some a\<close> False
          by (auto simp: wf_shared_def)
        then show ?thesis using Some False by (simp add: cache_of_def)
      qed
    qed
  qed
  have w: "wf_shared ?sh2" using wf by (simp add: wf_shared_def)
  show ?thesis using st c cs w by (simp add: Check_entry_def)
qed

lemma Check_steps_add:
  "Check_steps now (m + n) k sh =
     (case Check_steps now m k sh of (k', sh') \<Rightarrow> Check_steps now n k' sh')"
  by (induction m arbitrary: k sh) (auto split: prod.splits)

lemma Check_steps_alone:
  assumes "wf_shared sh" and "ck_loaded k = None"
  shows "\<exists>k' sh'. Check_steps now (2 * length (ck_samples k)) k sh = (k', sh') \<and>
           ck_samples k' = [] \<and> wf_shared sh' \<and>
           (cache_of sh', ck_exports k') =
             Check_loop (ck_extraction k) now (ck_i k) (ck_samples k) (cache_of sh) (ck_exports k)"
  using assms
proof (induction "ck_samples k" arbitrary: k sh)
  case Nil
  then show ?case by simp
next
  case (Cons s ss)
  have sm: "ck_samples k = s # ss" using Cons.hyps(2) by simp
  obtain k2 sh2 where two: "Check_steps now 2 k sh = (k2, sh2)"
    and f: "ck_samples k2 = ss" "ck_i k2 = Suc (ck_i k)" "ck_loaded k2 = None"
      "ck_extraction k2 = ck_extraction k"
      "ck_exports k2 = ck_exports k @ [snd (Check_entry (ck_extraction k) (now (ck_i k)) s (cache_of sh))]"
      "cache_of sh2 = fst (Check_entry (ck_extraction k) (now (ck_i k)) s (cache_of sh))"
      "wf_shared sh2"
    using Check_two_steps[OF Cons.prems(1) Cons.prems(2) sm, of now] by blast
  have "ss = ck_samples k2" using f(1) by simp
  from Cons.hyps(1)[OF this f(7) f(3)]
  obtain k' sh' where rest: "Check_steps now (2 * length (ck_samples k2)) k2 sh2 = (k', sh')"
    and r: "ck_samples k' = []" "wf_shared sh'"
      "(cache_of sh', ck_exports k') =
         Check_loop (ck_extraction k2) now (ck_i k2) (ck_samples k2) (cache_of sh2) (ck_exports k2)"
    by blast
  have n: "2 * length (ck_samples k) = 2 + 2 * length (ck_samples k2)" using sm f(1) by simp
  have all: "Check_steps now (2 * length (ck_samples k)) k sh = (k', sh')"
    unfolding n Check_steps_add using two rest by simp
  obtain c1 y where ce: "Check_entry (ck_extraction k) (now (ck_i k)) s (cache_of sh) = (c1, y)"
    by (cases "Check_entry (ck_extraction k) (now (ck_i k)) s (cache_of sh)")
  have "(cache_of sh', ck_exports k') =
          Check_loop (ck_extraction k) now (ck_i k) (ck_samples k) (cache_of sh) (ck_exports k)"
    using r(3) f sm ce by simp
  then show ?case using all r by blast
qed

end
